theory Spec2Isabelle
  imports Complex_Main
begin

section \<open>ChalkLet whiteboard: the scene engine of canvas.tsx\<close>

text \<open>
  A shallow embedding of \<^verbatim>\<open>src/components/whiteboard/canvas.tsx\<close>.

  Modelling conventions.
  \<^item> A JavaScript \<^verbatim>\<open>number\<close> is a \<^typ>\<open>real\<close>: arithmetic is exact, there is no
    rounding, no NaN and no infinity. \<^verbatim>\<open>Math.hypot\<close> is the real square root of the sum
    of squares.
  \<^item> A flat coordinate array \<^verbatim>\<open>[x0, y0, x1, y1, ...]\<close> (\<^verbatim>\<open>points\<close>, the eraser
    \<^verbatim>\<open>path\<close>) is the list of its pairs; every such array in the source is built two
    numbers at a time, so its length is even. A test \<^verbatim>\<open>a.length < 4\<close> of the source
    reads \<open>length a < 2\<close> here, and a loop \<^verbatim>\<open>for (i = 0; i < a.length; i += 2)\<close> runs
    over the pairs.
  \<^item> An object \<^verbatim>\<open>{x, y}\<close> is a pair.
  \<^item> React state and refs are fields of one record, \<open>state\<close>; a setter call is a record
    update, applied at once. The props of the component are the record \<open>config\<close>.
\<close>

type_synonym point = "real \<times> real"

datatype Tool = Pen | Eraser | Rect | Circle | Line | Arrow | Triangle | Pan | Select | Laser

datatype BrushStyle = Round | Square | Dashed

text \<open>
  \<^verbatim>\<open>LineItem\<close>. Its field \<^verbatim>\<open>tool\<close> has the literal type \<^verbatim>\<open>"pen"\<close>, so it carries
  no information and is left out.
\<close>

record LineItem =
  points :: "point list"
  pen_color :: string
  pen_strokeWidth :: real
  pen_brushStyle :: BrushStyle

record RectItem =
  rect_x :: real
  rect_y :: real
  rect_width :: real
  rect_height :: real
  rect_stroke :: string
  rect_strokeWidth :: real
  rect_dashed :: bool

record CircleItem =
  circle_x :: real
  circle_y :: real
  circle_radius :: real
  circle_stroke :: string
  circle_strokeWidth :: real
  circle_dashed :: bool

text \<open>\<^verbatim>\<open>SimpleLineItem\<close>; \<^verbatim>\<open>ArrowItem\<close> is the same type.\<close>

record SimpleLineItem =
  line_x1 :: real
  line_y1 :: real
  line_x2 :: real
  line_y2 :: real
  line_stroke :: string
  line_strokeWidth :: real
  line_dashed :: bool

type_synonym ArrowItem = SimpleLineItem

record TriangleItem =
  tri_x1 :: real
  tri_y1 :: real
  tri_x2 :: real
  tri_y2 :: real
  tri_x3 :: real
  tri_y3 :: real
  tri_stroke :: string
  tri_strokeWidth :: real
  tri_dashed :: bool

subsection \<open>Geometry and hit testing\<close>

definition hypot :: "real \<Rightarrow> real \<Rightarrow> real" where
  "hypot a b = sqrt (a * a + b * b)"

definition distPointToSeg :: "real \<Rightarrow> real \<Rightarrow> real \<Rightarrow> real \<Rightarrow> real \<Rightarrow> real \<Rightarrow> real" where
  "distPointToSeg px py x1 y1 x2 y2 =
     (let dx = x2 - x1;
          dy = y2 - y1;
          len2 = dx * dx + dy * dy
      in if len2 = 0 then hypot (px - x1) (py - y1)
         else
           let t0 = ((px - x1) * dx + (py - y1) * dy) / len2;
               t = max 0 (min 1 t0);
               x = x1 + t * dx;
               y = y1 + t * dy
           in hypot (px - x) (py - y))"

text \<open>
  \<^verbatim>\<open>for (let i = 0; i + 3 < points.length; i += 2)\<close>: one test per pair of consecutive
  points, the first hit returns.
\<close>

fun polylineHit :: "point list \<Rightarrow> real \<Rightarrow> real \<Rightarrow> real \<Rightarrow> bool" where
  "polylineHit (p # q # ps) px py thresh =
     (if distPointToSeg px py (fst p) (snd p) (fst q) (snd q) \<le> thresh then True
      else polylineHit (q # ps) px py thresh)"
| "polylineHit ps px py thresh = False"

definition rectHit :: "RectItem \<Rightarrow> real \<Rightarrow> real \<Rightarrow> real \<Rightarrow> bool" where
  "rectHit r px py t =
     (let x = rect_x r; y = rect_y r; width = rect_width r; height = rect_height r
      in distPointToSeg px py x y (x + width) y \<le> t \<or>
         distPointToSeg px py (x + width) y (x + width) (y + height) \<le> t \<or>
         distPointToSeg px py (x + width) (y + height) x (y + height) \<le> t \<or>
         distPointToSeg px py x (y + height) x y \<le> t)"

definition circleHit :: "CircleItem \<Rightarrow> real \<Rightarrow> real \<Rightarrow> real \<Rightarrow> bool" where
  "circleHit c px py t =
     (let d = hypot (px - circle_x c) (py - circle_y c)
      in \<bar>d - circle_radius c\<bar> \<le> t)"

definition lineHit :: "SimpleLineItem \<Rightarrow> real \<Rightarrow> real \<Rightarrow> real \<Rightarrow> bool" where
  "lineHit l px py t =
     (distPointToSeg px py (line_x1 l) (line_y1 l) (line_x2 l) (line_y2 l) \<le> t)"

definition triangleHit :: "TriangleItem \<Rightarrow> real \<Rightarrow> real \<Rightarrow> real \<Rightarrow> bool" where
  "triangleHit tr px py t =
     (distPointToSeg px py (tri_x1 tr) (tri_y1 tr) (tri_x2 tr) (tri_y2 tr) \<le> t \<or>
      distPointToSeg px py (tri_x2 tr) (tri_y2 tr) (tri_x3 tr) (tri_y3 tr) \<le> t \<or>
      distPointToSeg px py (tri_x3 tr) (tri_y3 tr) (tri_x1 tr) (tri_y1 tr) \<le> t)"

subsection \<open>The eraser segmenter\<close>

text \<open>
  The inner loop of \<^verbatim>\<open>splitPolylineByEraser\<close>: \<^verbatim>\<open>near\<close> becomes true at the first
  path point within \<^verbatim>\<open>radius\<close> of \<^verbatim>\<open>(px, py)\<close>, and the loop breaks there.
\<close>

fun nearPath :: "real \<Rightarrow> real \<Rightarrow> point list \<Rightarrow> real \<Rightarrow> bool" where
  "nearPath px py [] radius = False"
| "nearPath px py (e # path) radius =
     (if hypot (px - fst e) (py - snd e) \<le> radius then True
      else nearPath px py path radius)"

text \<open>The array \<^verbatim>\<open>keep\<close>: one flag per stroke point, \<^verbatim>\<open>!near\<close>.\<close>

definition keepFlags :: "point list \<Rightarrow> point list \<Rightarrow> real \<Rightarrow> bool list" where
  "keepFlags pts path radius = map (\<lambda>p. \<not> nearPath (fst p) (snd p) path radius) pts"

text \<open>
  The second loop, over the indices of \<^verbatim>\<open>keep\<close>, with its two variables \<^verbatim>\<open>cur\<close> and
  \<^verbatim>\<open>segments\<close>; the equation for the empty list is the statement after the loop,
  \<^verbatim>\<open>if (cur.length >= 4) segments.push(cur)\<close>.
\<close>

fun buildSegments :: "(point \<times> bool) list \<Rightarrow> point list \<Rightarrow> point list list \<Rightarrow> point list list" where
  "buildSegments [] cur segments = (if 2 \<le> length cur then segments @ [cur] else segments)"
| "buildSegments ((p, k) # rest) cur segments =
     (if k then buildSegments rest (cur @ [p]) segments
      else buildSegments rest [] (if 2 \<le> length cur then segments @ [cur] else segments))"

definition splitPolylineByEraser :: "point list \<Rightarrow> point list \<Rightarrow> real \<Rightarrow> point list list" where
  "splitPolylineByEraser pts path radius =
     (if length pts < 2 then [pts]
      else
        let keep = keepFlags pts path radius;
            segments = buildSegments (zip pts keep) [] []
        in filter (\<lambda>seg. 2 \<le> length seg) segments)"

text \<open>
  The words of the specification, for comparison with the loops above: a stroke point is
  erased when some point of the eraser path lies within the radius, and the stroke falls
  into its maximal runs of consecutive points that are not erased.
\<close>

definition erasedBy :: "point list \<Rightarrow> real \<Rightarrow> point \<Rightarrow> bool" where
  "erasedBy path radius p = (\<exists>e \<in> set path. hypot (fst p - fst e) (snd p - snd e) \<le> radius)"

function maximalRuns :: "('a \<Rightarrow> bool) \<Rightarrow> 'a list \<Rightarrow> 'a list list" where
  "maximalRuns erased xs =
     (case dropWhile erased xs of
        [] \<Rightarrow> []
      | y # ys \<Rightarrow>
          takeWhile (\<lambda>x. \<not> erased x) (y # ys) #
          maximalRuns erased (dropWhile (\<lambda>x. \<not> erased x) (y # ys)))"
  by pat_completeness auto
termination
proof (relation "measure (\<lambda>(erased, xs). length xs)")
  show "wf (measure (\<lambda>(erased :: 'a \<Rightarrow> bool, xs). length xs))"
    by simp
next
  fix erased :: "'a \<Rightarrow> bool" and xs y ys
  assume d: "dropWhile erased xs = y # ys"
  have "\<not> erased y"
    using d hd_dropWhile [of erased xs] by force
  then have "length (dropWhile (\<lambda>x. \<not> erased x) (y # ys)) \<le> length ys"
    by (simp add: length_dropWhile_le)
  also have "length ys < length (dropWhile erased xs)"
    using d by simp
  also have "\<dots> \<le> length xs"
    by (rule length_dropWhile_le)
  finally show "((erased, dropWhile (\<lambda>x. \<not> erased x) (y # ys)), (erased, xs))
      \<in> measure (\<lambda>(erased, xs). length xs)"
    by simp
qed

declare maximalRuns.simps [simp del]

subsection \<open>Component state\<close>

text \<open>The props of \<^verbatim>\<open>WhiteboardCanvas\<close> that the handlers read.\<close>

record config =
  tool :: Tool
  color :: string
  strokeWidth :: real
  brushStyle :: BrushStyle

text \<open>The \<^verbatim>\<open>kind\<close> strings of \<^verbatim>\<open>selected\<close> and of the result of \<^verbatim>\<open>shapeUnderPointer\<close>.\<close>

datatype Kind = KPen | KRect | KCircle | KLine | KArrow | KTriangle

text \<open>The \<^verbatim>\<open>draft\<close> object, by its \<^verbatim>\<open>type\<close> tag; the arguments are its fields in order.\<close>

datatype Draft =
    DraftRect real real real real
  | DraftCircle real real real
  | DraftLine real real real real
  | DraftArrow real real real real
  | DraftTriangle real real real real real real

text \<open>
  \<^verbatim>\<open>interactionRef.current.original\<close> is a copy \<^verbatim>\<open>{ ...xs[idx] }\<close> of a shape; the
  copy of \<^verbatim>\<open>undefined\<close> is the empty object, \<open>None\<close> below.
\<close>

datatype Shape =
    ShapeRect RectItem
  | ShapeCircle CircleItem
  | ShapeLine SimpleLineItem
  | ShapeTriangle TriangleItem

datatype Mode = Moving | Resizing

record Interaction =
  mode :: Mode
  handle :: "nat option"
  start :: point
  original :: "Shape option"

record Snapshot =
  lines :: "LineItem list"
  rects :: "RectItem list"
  circles :: "CircleItem list"
  simpleLines :: "SimpleLineItem list"
  arrows :: "ArrowItem list"
  triangles :: "TriangleItem list"

text \<open>
  The state of the component: the six shape sequences (the fields of \<open>Snapshot\<close>), then
  the other \<^verbatim>\<open>useState\<close> and \<^verbatim>\<open>useRef\<close> cells. \<open>canvas\<close> is \<^verbatim>\<open>canvasRef.current\<close>:
  \<open>None\<close> for \<^verbatim>\<open>null\<close>, else the \<^verbatim>\<open>left\<close> and \<^verbatim>\<open>top\<close> of its bounding rectangle.
  A laser sample is \<open>(x, y, t)\<close>.
\<close>

record state = Snapshot +
  scale :: real
  offset :: point
  isPanning :: bool
  panLast :: "point option"
  draft :: "Draft option"
  drawing :: bool
  erasingPath :: "point list"
  laser :: "(real \<times> real \<times> real) list"
  selected :: "(Kind \<times> nat) option"
  interaction :: "Interaction option"
  history :: "Snapshot list"
  eraserCursor :: "point option"
  canvas :: "point option"

text \<open>
  What the model cannot hold as a value of the typed state is an error:
  \<^item> \<open>TypeError\<close>: the source reads a property of \<^verbatim>\<open>undefined\<close> and throws;
  \<^item> \<open>UndefinedField\<close>: the source computes with a field that the object does not have
    (the result in JavaScript is an object with NaN or missing fields);
  \<^item> \<open>SparseArray\<close>: the source assigns past the end of an array and leaves holes.
\<close>

datatype error = TypeError | UndefinedField | SparseArray

subsection \<open>Viewport\<close>

definition getWorldPoint :: "state \<Rightarrow> real \<Rightarrow> real \<Rightarrow> point" where
  "getWorldPoint s clientX clientY =
     (case canvas s of
        None \<Rightarrow> (0, 0)
      | Some rect \<Rightarrow>
          let xCss = clientX - fst rect;
              yCss = clientY - snd rect
          in ((xCss - fst (offset s)) / scale s, (yCss - snd (offset s)) / scale s))"

definition MIN_SCALE :: real where "MIN_SCALE = 0.5"
definition MAX_SCALE :: real where "MAX_SCALE = 3"
definition SCALE_BY :: real where "SCALE_BY = 1.05"

definition handleWheel :: "real \<Rightarrow> real \<Rightarrow> real \<Rightarrow> state \<Rightarrow> state" where
  "handleWheel deltaY clientX clientY s =
     (let direction = (if deltaY > 0 then - 1 else 1 :: int);
          before = getWorldPoint s clientX clientY;
          raw = (if direction > 0 then scale s * SCALE_BY else scale s / SCALE_BY);
          newScale = min MAX_SCALE (max MIN_SCALE raw);
          s1 = s\<lparr>scale := newScale\<rparr>
      in case canvas s of
           None \<Rightarrow> s1
         | Some rect \<Rightarrow>
             let xCss = clientX - fst rect;
                 yCss = clientY - snd rect
             in s1\<lparr>offset := (xCss - fst before * newScale, yCss - snd before * newScale)\<rparr>)"

subsection \<open>History\<close>

definition MAX_HISTORY :: nat where "MAX_HISTORY = 100"

text \<open>
  \<^verbatim>\<open>pushHistory\<close>: the snapshot is a deep copy (a JSON round trip) of the six arrays, that
  is, the same values; \<^verbatim>\<open>push\<close> appends, \<^verbatim>\<open>shift\<close> removes the first entry.
\<close>

definition pushHistory :: "state \<Rightarrow> state" where
  "pushHistory s =
     (let snap = \<lparr>lines = lines s, rects = rects s, circles = circles s,
                  simpleLines = simpleLines s, arrows = arrows s, triangles = triangles s\<rparr>;
          h = history s @ [snap]
      in s\<lparr>history := (if length h > MAX_HISTORY then tl h else h)\<rparr>)"

text \<open>
  The \<^verbatim>\<open>keydown\<close> listener. \<^verbatim>\<open>e.key.toLowerCase() === "z"\<close> holds for the keys
  \<^verbatim>\<open>z\<close> and \<^verbatim>\<open>Z\<close>. \<^verbatim>\<open>historyRef.current.pop()\<close> removes and returns the last entry,
  \<^verbatim>\<open>undefined\<close> on the empty array.
\<close>

definition onKey :: "bool \<Rightarrow> bool \<Rightarrow> string \<Rightarrow> state \<Rightarrow> state" where
  "onKey ctrlKey metaKey key s =
     (let isUndo = ((ctrlKey \<or> metaKey) \<and> (key = ''z'' \<or> key = ''Z''))
      in if \<not> isUndo then s
         else if history s = [] then s
         else
           let snap = last (history s)
           in s\<lparr>history := butlast (history s),
                lines := lines snap,
                rects := rects snap,
                circles := circles snap,
                simpleLines := simpleLines snap,
                arrows := arrows snap,
                triangles := triangles snap,
                draft := None,
                selected := None,
                interaction := None\<rparr>)"

subsection \<open>Drawing\<close>

definition startDrawing :: "config \<Rightarrow> point \<Rightarrow> real \<Rightarrow> state \<Rightarrow> state" where
  "startDrawing cfg pos now s =
     (if tool cfg = Pen then
        let newLine = \<lparr>points = [pos], pen_color = color cfg,
                       pen_strokeWidth = strokeWidth cfg, pen_brushStyle = brushStyle cfg\<rparr>
        in s\<lparr>lines := lines s @ [newLine], drawing := True\<rparr>
      else if tool cfg = Eraser then s\<lparr>erasingPath := [pos], drawing := True\<rparr>
      else if tool cfg = Rect then s\<lparr>draft := Some (DraftRect (fst pos) (snd pos) 0 0)\<rparr>
      else if tool cfg = Circle then s\<lparr>draft := Some (DraftCircle (fst pos) (snd pos) 0)\<rparr>
      else if tool cfg = Line then
        s\<lparr>draft := Some (DraftLine (fst pos) (snd pos) (fst pos) (snd pos))\<rparr>
      else if tool cfg = Arrow then
        s\<lparr>draft := Some (DraftArrow (fst pos) (snd pos) (fst pos) (snd pos))\<rparr>
      else if tool cfg = Triangle then
        s\<lparr>draft := Some (DraftTriangle (fst pos) (snd pos) (fst pos) (snd pos) (fst pos) (snd pos))\<rparr>
      else if tool cfg = Laser then
        s\<lparr>laser := laser s @ [(fst pos, snd pos, now)], drawing := True\<rparr>
      else s)"

definition updateDrawing :: "config \<Rightarrow> point \<Rightarrow> state \<Rightarrow> state" where
  "updateDrawing cfg pos s =
     (if tool cfg = Pen then
        (if \<not> drawing s then s
         else if lines s = [] then s
         else
           let lst = last (lines s);
               updated = lst\<lparr>points := points lst @ [pos]\<rparr>
           in s\<lparr>lines := butlast (lines s) @ [updated]\<rparr>)
      else if tool cfg = Eraser then s
      else
        (case draft s of
           None \<Rightarrow> s
         | Some (DraftRect x y w h) \<Rightarrow>
             s\<lparr>draft := Some (DraftRect x y (fst pos - x) (snd pos - y))\<rparr>
         | Some (DraftCircle x y r0) \<Rightarrow>
             let dx = fst pos - x;
                 dy = snd pos - y;
                 r = sqrt (dx * dx + dy * dy)
             in s\<lparr>draft := Some (DraftCircle x y r)\<rparr>
         | Some (DraftLine x1 y1 a b) \<Rightarrow>
             s\<lparr>draft := Some (DraftLine x1 y1 (fst pos) (snd pos))\<rparr>
         | Some (DraftArrow x1 y1 a b) \<Rightarrow>
             s\<lparr>draft := Some (DraftArrow x1 y1 (fst pos) (snd pos))\<rparr>
         | Some (DraftTriangle x1 y1 a b c d) \<Rightarrow>
             let x2 = fst pos;
                 y2 = snd pos;
                 x3 = x1 * 2 - x2;
                 y3 = y2
             in s\<lparr>draft := Some (DraftTriangle x1 y1 x2 y2 x3 y3)\<rparr>))"

text \<open>
  \<^verbatim>\<open>applyEraserDeletion\<close>. \<^verbatim>\<open>path.some((_, i) => i % 2 === 1 ? false : hit(.., path[i],
  path[i + 1], ..))\<close> asks whether some point of the path hits. The branch for a
  \<^verbatim>\<open>LineItem\<close> whose \<^verbatim>\<open>tool\<close> is not \<^verbatim>\<open>"pen"\<close> has no value of the type to run on.
\<close>

definition applyEraserDeletion :: "point list \<Rightarrow> real \<Rightarrow> state \<Rightarrow> state" where
  "applyEraserDeletion path threshold s =
     (if path = [] then s
      else
        let t = max 2 threshold
        in s\<lparr>lines :=
               concat (map (\<lambda>l. map (\<lambda>seg. l\<lparr>points := seg\<rparr>)
                                  (splitPolylineByEraser (points l) path (max t (pen_strokeWidth l / 2))))
                           (lines s)),
             rects := filter (\<lambda>r. \<not> list_ex (\<lambda>e. rectHit r (fst e) (snd e) t) path) (rects s),
             circles := filter (\<lambda>c. \<not> list_ex (\<lambda>e. circleHit c (fst e) (snd e) t) path) (circles s),
             simpleLines :=
               filter (\<lambda>l. \<not> list_ex (\<lambda>e. lineHit l (fst e) (snd e) (max t (line_strokeWidth l / 2))) path)
                      (simpleLines s),
             arrows :=
               filter (\<lambda>a. \<not> list_ex (\<lambda>e. lineHit a (fst e) (snd e) (max t (line_strokeWidth a / 2))) path)
                      (arrows s),
             triangles := filter (\<lambda>tr. \<not> list_ex (\<lambda>e. triangleHit tr (fst e) (snd e) t) path) (triangles s)\<rparr>)"

definition endDrawing :: "config \<Rightarrow> state \<Rightarrow> state" where
  "endDrawing cfg s =
     (if tool cfg = Eraser then s\<lparr>erasingPath := [], drawing := False\<rparr>
      else if tool cfg = Laser then s\<lparr>drawing := False\<rparr>
      else
        let s1 = s\<lparr>drawing := False\<rparr>;
            d = (brushStyle cfg = Dashed)
        in case draft s1 of
             None \<Rightarrow> s1
           | Some (DraftRect x y w h) \<Rightarrow>
               s1\<lparr>rects := rects s1 @
                     [\<lparr>rect_x = x, rect_y = y, rect_width = w, rect_height = h,
                       rect_stroke = color cfg, rect_strokeWidth = strokeWidth cfg, rect_dashed = d\<rparr>],
                   draft := None\<rparr>
           | Some (DraftCircle x y r) \<Rightarrow>
               s1\<lparr>circles := circles s1 @
                     [\<lparr>circle_x = x, circle_y = y, circle_radius = r,
                       circle_stroke = color cfg, circle_strokeWidth = strokeWidth cfg, circle_dashed = d\<rparr>],
                   draft := None\<rparr>
           | Some (DraftLine x1 y1 x2 y2) \<Rightarrow>
               s1\<lparr>simpleLines := simpleLines s1 @
                     [\<lparr>line_x1 = x1, line_y1 = y1, line_x2 = x2, line_y2 = y2,
                       line_stroke = color cfg, line_strokeWidth = strokeWidth cfg, line_dashed = d\<rparr>],
                   draft := None\<rparr>
           | Some (DraftArrow x1 y1 x2 y2) \<Rightarrow>
               s1\<lparr>arrows := arrows s1 @
                     [\<lparr>line_x1 = x1, line_y1 = y1, line_x2 = x2, line_y2 = y2,
                       line_stroke = color cfg, line_strokeWidth = strokeWidth cfg, line_dashed = d\<rparr>],
                   draft := None\<rparr>
           | Some (DraftTriangle x1 y1 x2 y2 x3 y3) \<Rightarrow>
               s1\<lparr>triangles := triangles s1 @
                     [\<lparr>tri_x1 = x1, tri_y1 = y1, tri_x2 = x2, tri_y2 = y2, tri_x3 = x3, tri_y3 = y3,
                       tri_stroke = color cfg, tri_strokeWidth = strokeWidth cfg, tri_dashed = d\<rparr>],
                   draft := None\<rparr>)"

subsection \<open>Selection: bounding boxes, handles, the shape under the pointer\<close>

record BBox =
  bbox_x0 :: real
  bbox_y0 :: real
  bbox_x1 :: real
  bbox_y1 :: real

definition getRectBBox :: "RectItem \<Rightarrow> BBox" where
  "getRectBBox r =
     \<lparr>bbox_x0 = min (rect_x r) (rect_x r + rect_width r),
      bbox_y0 = min (rect_y r) (rect_y r + rect_height r),
      bbox_x1 = max (rect_x r) (rect_x r + rect_width r),
      bbox_y1 = max (rect_y r) (rect_y r + rect_height r)\<rparr>"

definition getCircleBBox :: "CircleItem \<Rightarrow> BBox" where
  "getCircleBBox c =
     \<lparr>bbox_x0 = circle_x c - circle_radius c,
      bbox_y0 = circle_y c - circle_radius c,
      bbox_x1 = circle_x c + circle_radius c,
      bbox_y1 = circle_y c + circle_radius c\<rparr>"

definition getLineBBox :: "SimpleLineItem \<Rightarrow> BBox" where
  "getLineBBox l =
     \<lparr>bbox_x0 = min (line_x1 l) (line_x2 l),
      bbox_y0 = min (line_y1 l) (line_y2 l),
      bbox_x1 = max (line_x1 l) (line_x2 l),
      bbox_y1 = max (line_y1 l) (line_y2 l)\<rparr>"

definition getTriBBox :: "TriangleItem \<Rightarrow> BBox" where
  "getTriBBox t =
     \<lparr>bbox_x0 = min (min (tri_x1 t) (tri_x2 t)) (tri_x3 t),
      bbox_y0 = min (min (tri_y1 t) (tri_y2 t)) (tri_y3 t),
      bbox_x1 = max (max (tri_x1 t) (tri_x2 t)) (tri_x3 t),
      bbox_y1 = max (max (tri_y1 t) (tri_y2 t)) (tri_y3 t)\<rparr>"

text \<open>An array read \<^verbatim>\<open>xs[i]\<close>: \<open>None\<close> is \<^verbatim>\<open>undefined\<close>.\<close>

definition nthOpt :: "'a list \<Rightarrow> nat \<Rightarrow> 'a option" where
  "nthOpt xs i = (if i < length xs then Some (xs ! i) else None)"

text \<open>
  \<^verbatim>\<open>getSelectedBBox\<close>: each \<^verbatim>\<open>get...BBox\<close> reads the fields of its argument, and throws
  when the selected index is past the end of its array.
\<close>

definition getSelectedBBox :: "state \<Rightarrow> error + BBox option" where
  "getSelectedBBox s =
     (case selected s of
        None \<Rightarrow> Inr None
      | Some (KRect, idx) \<Rightarrow>
          (case nthOpt (rects s) idx of None \<Rightarrow> Inl TypeError | Some r \<Rightarrow> Inr (Some (getRectBBox r)))
      | Some (KCircle, idx) \<Rightarrow>
          (case nthOpt (circles s) idx of None \<Rightarrow> Inl TypeError | Some c \<Rightarrow> Inr (Some (getCircleBBox c)))
      | Some (KLine, idx) \<Rightarrow>
          (case nthOpt (simpleLines s) idx of None \<Rightarrow> Inl TypeError | Some l \<Rightarrow> Inr (Some (getLineBBox l)))
      | Some (KArrow, idx) \<Rightarrow>
          (case nthOpt (arrows s) idx of None \<Rightarrow> Inl TypeError | Some a \<Rightarrow> Inr (Some (getLineBBox a)))
      | Some (KTriangle, idx) \<Rightarrow>
          (case nthOpt (triangles s) idx of None \<Rightarrow> Inl TypeError | Some t \<Rightarrow> Inr (Some (getTriBBox t)))
      | Some (KPen, idx) \<Rightarrow> Inr None)"

text \<open>The loop over the four handles \<open>(x, y, id)\<close>; the first one that contains the point returns.\<close>

fun findHandle :: "(real \<times> real \<times> nat) list \<Rightarrow> real \<Rightarrow> real \<Rightarrow> real \<Rightarrow> nat option" where
  "findHandle [] px py hs = None"
| "findHandle ((hx, hy, hid) # handles) px py hs =
     (if px \<ge> hx - hs \<and> px \<le> hx + hs \<and> py \<ge> hy - hs \<and> py \<le> hy + hs then Some hid
      else findHandle handles px py hs)"

text \<open>\<^verbatim>\<open>handleUnderPointer\<close>: \<open>Some id\<close> for \<^verbatim>\<open>{ hit: true, id }\<close>, \<open>None\<close> for \<^verbatim>\<open>{ hit: false }\<close>.\<close>

definition handleUnderPointer :: "state \<Rightarrow> real \<Rightarrow> real \<Rightarrow> error + nat option" where
  "handleUnderPointer s px py =
     (case getSelectedBBox s of
        Inl e \<Rightarrow> Inl e
      | Inr None \<Rightarrow> Inr None
      | Inr (Some bbox) \<Rightarrow>
          let hs = max (6 / scale s) (4 / scale s);
              handles = [(bbox_x0 bbox, bbox_y0 bbox, 0), (bbox_x1 bbox, bbox_y0 bbox, 1),
                         (bbox_x1 bbox, bbox_y1 bbox, 2), (bbox_x0 bbox, bbox_y1 bbox, 3)]
          in Inr (findHandle handles px py hs))"

text \<open>
  \<^verbatim>\<open>for (let i = xs.length - 1; i >= 0; i--) if (hit(xs[i])) return i\<close>, started with
  \<open>n = length xs\<close>: the index tested next is \<open>n - 1\<close>.
\<close>

fun scanDown :: "('a \<Rightarrow> bool) \<Rightarrow> 'a list \<Rightarrow> nat \<Rightarrow> nat option" where
  "scanDown hit xs 0 = None"
| "scanDown hit xs (Suc i) = (if hit (xs ! i) then Some i else scanDown hit xs i)"

definition shapeUnderPointer :: "state \<Rightarrow> real \<Rightarrow> real \<Rightarrow> (Kind \<times> nat) option" where
  "shapeUnderPointer s px py =
     (case scanDown (\<lambda>l. polylineHit (points l) px py (max (4 / scale s) (pen_strokeWidth l / 2)))
             (lines s) (length (lines s)) of
        Some i \<Rightarrow> Some (KPen, i)
      | None \<Rightarrow>
     (case scanDown (\<lambda>t. triangleHit t px py (6 / scale s)) (triangles s) (length (triangles s)) of
        Some i \<Rightarrow> Some (KTriangle, i)
      | None \<Rightarrow>
     (case scanDown (\<lambda>a. lineHit a px py (6 / scale s)) (arrows s) (length (arrows s)) of
        Some i \<Rightarrow> Some (KArrow, i)
      | None \<Rightarrow>
     (case scanDown (\<lambda>l. lineHit l px py (6 / scale s)) (simpleLines s) (length (simpleLines s)) of
        Some i \<Rightarrow> Some (KLine, i)
      | None \<Rightarrow>
     (case scanDown (\<lambda>c. circleHit c px py (6 / scale s)) (circles s) (length (circles s)) of
        Some i \<Rightarrow> Some (KCircle, i)
      | None \<Rightarrow>
     (case scanDown (\<lambda>r. rectHit r px py (6 / scale s)) (rects s) (length (rects s)) of
        Some i \<Rightarrow> Some (KRect, i)
      | None \<Rightarrow> None))))))"

subsection \<open>Pointer handlers\<close>

text \<open>
  The nested conditional that copies the shape a selection refers to; its last branch
  reads \<^verbatim>\<open>triangles\<close> for every kind that is left.
\<close>

definition originalOf :: "state \<Rightarrow> Kind \<Rightarrow> nat \<Rightarrow> Shape option" where
  "originalOf s kind idx =
     (if kind = KRect then map_option ShapeRect (nthOpt (rects s) idx)
      else if kind = KCircle then map_option ShapeCircle (nthOpt (circles s) idx)
      else if kind = KLine then map_option ShapeLine (nthOpt (simpleLines s) idx)
      else if kind = KArrow then map_option ShapeLine (nthOpt (arrows s) idx)
      else map_option ShapeTriangle (nthOpt (triangles s) idx))"

text \<open>
  \<^verbatim>\<open>onPointerDown\<close>. \<^verbatim>\<open>now\<close> is the value of \<^verbatim>\<open>performance.now()\<close>. Pointer capture
  and \<^verbatim>\<open>preventDefault\<close> have no effect on the state.
\<close>

definition onPointerDown :: "config \<Rightarrow> real \<Rightarrow> real \<Rightarrow> real \<Rightarrow> state \<Rightarrow> error + state" where
  "onPointerDown cfg clientX clientY now s =
     (if tool cfg = Pan then Inr (s\<lparr>isPanning := True, panLast := Some (clientX, clientY)\<rparr>)
      else
        let pos = getWorldPoint s clientX clientY
        in if tool cfg = Select then
             (case (case selected s of
                      None \<Rightarrow> Inr None
                    | Some sel \<Rightarrow> handleUnderPointer s (fst pos) (snd pos)) of
                Inl e \<Rightarrow> Inl e
              | Inr hit \<Rightarrow>
                  (case (selected s, hit) of
                     (Some sel, Some hid) \<Rightarrow>
                       Inr ((pushHistory s)
                              \<lparr>interaction :=
                                 Some \<lparr>mode = Resizing, handle = Some hid, start = pos,
                                       original = originalOf s (fst sel) (snd sel)\<rparr>\<rparr>)
                   | _ \<Rightarrow>
                       (case shapeUnderPointer s (fst pos) (snd pos) of
                          None \<Rightarrow> Inr (s\<lparr>selected := None, interaction := None\<rparr>)
                        | Some (kind, idx) \<Rightarrow>
                            if kind \<noteq> KPen then
                              Inr ((pushHistory s)
                                     \<lparr>selected := Some (kind, idx),
                                      interaction :=
                                        Some \<lparr>mode = Moving, handle = None, start = pos,
                                              original = originalOf s kind idx\<rparr>\<rparr>)
                            else Inr (s\<lparr>selected := None, interaction := None\<rparr>))))
           else
             let s1 = (if tool cfg \<noteq> Laser then pushHistory s else s)
             in if tool cfg = Eraser then
                  Inr (s1\<lparr>erasingPath := [pos], eraserCursor := Some pos, drawing := True\<rparr>)
                else if tool cfg = Laser then
                  Inr (s1\<lparr>laser := laser s1 @ [(fst pos, snd pos, now)], drawing := True\<rparr>)
                else Inr (startDrawing cfg pos now s1))"

text \<open>
  An array write \<^verbatim>\<open>copy[i] = v\<close> on a copy of \<open>xs\<close>: in range it replaces, at the end it
  appends, beyond the end it leaves holes.
\<close>

definition jsAssign :: "'a list \<Rightarrow> nat \<Rightarrow> 'a \<Rightarrow> error + 'a list" where
  "jsAssign xs i v =
     (if i < length xs then Inr (xs[i := v])
      else if i = length xs then Inr (xs @ [v])
      else Inl SparseArray)"

text \<open>
  The branch \<^verbatim>\<open>ia.mode === "moving"\<close> of \<^verbatim>\<open>onPointerMove\<close>. The casts
  \<^verbatim>\<open>ia.original as RectItem\<close> and the like are unchecked; an original of another kind,
  or the empty object, does not give an object of the array's element type.
\<close>

definition moveSelected :: "Kind \<Rightarrow> nat \<Rightarrow> Shape option \<Rightarrow> real \<Rightarrow> real \<Rightarrow> state \<Rightarrow> error + state" where
  "moveSelected kind idx orig dx dy s =
     (case kind of
        KRect \<Rightarrow>
          (case orig of
             Some (ShapeRect o1) \<Rightarrow>
               map_sum id (\<lambda>xs. s\<lparr>rects := xs\<rparr>)
                 (jsAssign (rects s) idx (o1\<lparr>rect_x := rect_x o1 + dx, rect_y := rect_y o1 + dy\<rparr>))
           | _ \<Rightarrow> Inl UndefinedField)
      | KCircle \<Rightarrow>
          (case orig of
             Some (ShapeCircle o1) \<Rightarrow>
               map_sum id (\<lambda>xs. s\<lparr>circles := xs\<rparr>)
                 (jsAssign (circles s) idx (o1\<lparr>circle_x := circle_x o1 + dx, circle_y := circle_y o1 + dy\<rparr>))
           | _ \<Rightarrow> Inl UndefinedField)
      | KLine \<Rightarrow>
          (case orig of
             Some (ShapeLine o1) \<Rightarrow>
               map_sum id (\<lambda>xs. s\<lparr>simpleLines := xs\<rparr>)
                 (jsAssign (simpleLines s) idx
                    (o1\<lparr>line_x1 := line_x1 o1 + dx, line_y1 := line_y1 o1 + dy,
                        line_x2 := line_x2 o1 + dx, line_y2 := line_y2 o1 + dy\<rparr>))
           | _ \<Rightarrow> Inl UndefinedField)
      | KArrow \<Rightarrow>
          (case orig of
             Some (ShapeLine o1) \<Rightarrow>
               map_sum id (\<lambda>xs. s\<lparr>arrows := xs\<rparr>)
                 (jsAssign (arrows s) idx
                    (o1\<lparr>line_x1 := line_x1 o1 + dx, line_y1 := line_y1 o1 + dy,
                        line_x2 := line_x2 o1 + dx, line_y2 := line_y2 o1 + dy\<rparr>))
           | _ \<Rightarrow> Inl UndefinedField)
      | KTriangle \<Rightarrow>
          (case orig of
             Some (ShapeTriangle o1) \<Rightarrow>
               map_sum id (\<lambda>xs. s\<lparr>triangles := xs\<rparr>)
                 (jsAssign (triangles s) idx
                    (o1\<lparr>tri_x1 := tri_x1 o1 + dx, tri_y1 := tri_y1 o1 + dy,
                        tri_x2 := tri_x2 o1 + dx, tri_y2 := tri_y2 o1 + dy,
                        tri_x3 := tri_x3 o1 + dx, tri_y3 := tri_y3 o1 + dy\<rparr>))
           | _ \<Rightarrow> Inl UndefinedField)
      | KPen \<Rightarrow> Inr s)"

text \<open>The rectangle written by the branch for a resized rectangle.\<close>

definition resizeRect :: "RectItem \<Rightarrow> nat \<Rightarrow> real \<Rightarrow> real \<Rightarrow> RectItem" where
  "resizeRect o1 h dx dy =
     (let bb = getRectBBox o1;
          x0 = bbox_x0 bb; y0 = bbox_y0 bb; x1 = bbox_x1 bb; y1 = bbox_y1 bb;
          (x0', y0', x1', y1') =
            (if h = 0 then (min (x1 - 1) (x0 + dx), min (y1 - 1) (y0 + dy), x1, y1)
             else if h = 1 then (x0, min (y1 - 1) (y0 + dy), max (x0 + 1) (x1 + dx), y1)
             else if h = 2 then (x0, y0, max (x0 + 1) (x1 + dx), max (y0 + 1) (y1 + dy))
             else if h = 3 then (min (x1 - 1) (x0 + dx), y0, x1, max (y0 + 1) (y1 + dy))
             else (x0, y0, x1, y1))
      in o1\<lparr>rect_x := x0', rect_y := y0', rect_width := x1' - x0', rect_height := y1' - y0'\<rparr>)"

text \<open>The line or arrow written by the branch for a resized line or arrow.\<close>

definition resizeLine :: "SimpleLineItem \<Rightarrow> nat \<Rightarrow> real \<Rightarrow> real \<Rightarrow> SimpleLineItem" where
  "resizeLine o1 h dx dy =
     (let (x1, y1, x2, y2) =
            (if h = 0 \<or> h = 3 then (line_x1 o1 + dx, line_y1 o1 + dy, line_x2 o1, line_y2 o1)
             else (line_x1 o1, line_y1 o1, line_x2 o1 + dx, line_y2 o1 + dy))
      in o1\<lparr>line_x1 := x1, line_y1 := y1, line_x2 := x2, line_y2 := y2\<rparr>)"

text \<open>
  The \<^verbatim>\<open>forEach\<close> over the three vertices of a resized triangle: the pair is \<^verbatim>\<open>idx\<close>
  and \<^verbatim>\<open>best\<close>, where \<open>None\<close> is \<^verbatim>\<open>Number.POSITIVE_INFINITY\<close>.
\<close>

definition nearestVertex :: "point list \<Rightarrow> point \<Rightarrow> nat" where
  "nearestVertex pts st =
     fst (foldl (\<lambda>(idx, best) (i, p).
                   let d = hypot (fst p - fst st) (snd p - snd st)
                   in if (case best of None \<Rightarrow> True | Some b \<Rightarrow> d < b) then (i, Some d)
                      else (idx, best))
                (0, None) (zip [0 ..< length pts] pts))"

definition resizeTriangle :: "TriangleItem \<Rightarrow> point \<Rightarrow> real \<Rightarrow> real \<Rightarrow> TriangleItem" where
  "resizeTriangle o1 st dx dy =
     (let pts = [(tri_x1 o1, tri_y1 o1), (tri_x2 o1, tri_y2 o1), (tri_x3 o1, tri_y3 o1)];
          idx = nearestVertex pts st;
          nx = fst (pts ! idx) + dx;
          ny = snd (pts ! idx) + dy
      in if idx = 0 then o1\<lparr>tri_x1 := nx, tri_y1 := ny\<rparr>
         else if idx = 1 then o1\<lparr>tri_x2 := nx, tri_y2 := ny\<rparr>
         else o1\<lparr>tri_x3 := nx, tri_y3 := ny\<rparr>)"

text \<open>The branch \<^verbatim>\<open>ia.mode === "resizing" && ia.handle != null\<close> of \<^verbatim>\<open>onPointerMove\<close>.\<close>

definition resizeSelected ::
  "Kind \<Rightarrow> nat \<Rightarrow> Shape option \<Rightarrow> nat \<Rightarrow> point \<Rightarrow> point \<Rightarrow> state \<Rightarrow> error + state" where
  "resizeSelected kind idx orig h st pos s =
     (let dx = fst pos - fst st;
          dy = snd pos - snd st
      in case kind of
           KRect \<Rightarrow>
             (case orig of
                Some (ShapeRect o1) \<Rightarrow>
                  map_sum id (\<lambda>xs. s\<lparr>rects := xs\<rparr>) (jsAssign (rects s) idx (resizeRect o1 h dx dy))
              | _ \<Rightarrow> Inl UndefinedField)
         | KCircle \<Rightarrow>
             (case orig of
                Some (ShapeCircle o1) \<Rightarrow>
                  let r = max 1 (hypot (fst pos - circle_x o1) (snd pos - circle_y o1))
                  in map_sum id (\<lambda>xs. s\<lparr>circles := xs\<rparr>)
                       (jsAssign (circles s) idx (o1\<lparr>circle_radius := r\<rparr>))
              | _ \<Rightarrow> Inl UndefinedField)
         | KLine \<Rightarrow>
             (case orig of
                Some (ShapeLine o1) \<Rightarrow>
                  map_sum id (\<lambda>xs. s\<lparr>simpleLines := xs\<rparr>)
                    (jsAssign (simpleLines s) idx (resizeLine o1 h dx dy))
              | _ \<Rightarrow> Inl UndefinedField)
         | KArrow \<Rightarrow>
             (case orig of
                Some (ShapeLine o1) \<Rightarrow>
                  map_sum id (\<lambda>xs. s\<lparr>arrows := xs\<rparr>)
                    (jsAssign (arrows s) idx (resizeLine o1 h dx dy))
              | _ \<Rightarrow> Inl UndefinedField)
         | KTriangle \<Rightarrow>
             (case orig of
                Some (ShapeTriangle o1) \<Rightarrow>
                  map_sum id (\<lambda>xs. s\<lparr>triangles := xs\<rparr>)
                    (jsAssign (triangles s) idx (resizeTriangle o1 st dx dy))
              | _ \<Rightarrow> Inl UndefinedField)
         | KPen \<Rightarrow> Inr s)"

text \<open>
  The block \<^verbatim>\<open>if (tool === "select" && ia && selected)\<close>: \<open>Some\<close> result when one of its
  two branches returned, \<open>None\<close> when control falls through to the rest of the handler.
\<close>

definition selectInteraction :: "config \<Rightarrow> point \<Rightarrow> state \<Rightarrow> (error + state) option" where
  "selectInteraction cfg pos s =
     (case (tool cfg = Select, interaction s, selected s) of
        (True, Some ia, Some (kind, idx)) \<Rightarrow>
          if mode ia = Moving then
            Some (moveSelected kind idx (original ia)
                    (fst pos - fst (start ia)) (snd pos - snd (start ia)) s)
          else
            (case handle ia of
               Some h \<Rightarrow> Some (resizeSelected kind idx (original ia) h (start ia) pos s)
             | None \<Rightarrow> None)
      | _ \<Rightarrow> None)"

text \<open>
  The eraser branch of \<^verbatim>\<open>onPointerMove\<close>. A read of \<^verbatim>\<open>ep[ep.length - 2]\<close> on the empty
  path is \<^verbatim>\<open>undefined\<close>. Inside the loop the path has just been extended, so
  \<^verbatim>\<open>ep[ep.length - 4], ep[ep.length - 3]\<close> is the point that was last before the push.
\<close>

definition eraserMove :: "config \<Rightarrow> point \<Rightarrow> state \<Rightarrow> state" where
  "eraserMove cfg pos s =
     (if erasingPath s = [] then s\<lparr>erasingPath := [pos]\<rparr>
      else
        let lx = fst (last (erasingPath s));
            ly = snd (last (erasingPath s));
            dx = fst pos - lx;
            dy = snd pos - ly;
            dist = hypot dx dy;
            step = max 0.8 (strokeWidth cfg * 0.4);
            steps = max 1 (nat \<lfloor>dist / step\<rfloor>)
        in foldl (\<lambda>st i.
                    let ix = lx + (dx * real i) / real steps;
                        iy = ly + (dy * real i) / real steps;
                        prev = last (erasingPath st)
                    in applyEraserDeletion [prev, (ix, iy)] (strokeWidth cfg)
                         (st\<lparr>erasingPath := erasingPath st @ [(ix, iy)]\<rparr>))
                 s [1 ..< Suc steps])"

text \<open>The laser branch of \<^verbatim>\<open>onPointerMove\<close>; \<^verbatim>\<open>splice(0, 200)\<close> removes the first 200 samples.\<close>

definition laserMove :: "point \<Rightarrow> real \<Rightarrow> state \<Rightarrow> state" where
  "laserMove pos now s =
     (if laser s = [] \<or>
         hypot (fst pos - fst (last (laser s))) (snd pos - fst (snd (last (laser s)))) > 0.5 / scale s
      then
        let l = laser s @ [(fst pos, snd pos, now)]
        in s\<lparr>laser := (if length l > 1200 then drop 200 l else l)\<rparr>
      else s)"

definition onPointerMove :: "config \<Rightarrow> real \<Rightarrow> real \<Rightarrow> real \<Rightarrow> state \<Rightarrow> error + state" where
  "onPointerMove cfg clientX clientY now s =
     (case (tool cfg = Pan \<and> isPanning s, panLast s) of
        (True, Some pl) \<Rightarrow>
          let dx = clientX - fst pl;
              dy = clientY - snd pl
          in Inr (s\<lparr>offset := (fst (offset s) + dx, snd (offset s) + dy),
                    panLast := Some (clientX, clientY)\<rparr>)
      | _ \<Rightarrow>
          let pos = getWorldPoint s clientX clientY;
              s1 = (if tool cfg = Eraser then s\<lparr>eraserCursor := Some pos\<rparr> else s)
          in case selectInteraction cfg pos s1 of
               Some result \<Rightarrow> result
             | None \<Rightarrow>
                 if tool cfg = Laser \<and> drawing s1 then Inr (laserMove pos now s1)
                 else if tool cfg = Eraser \<and> drawing s1 then Inr (eraserMove cfg pos s1)
                 else if drawing s1 \<or> draft s1 \<noteq> None then Inr (updateDrawing cfg pos s1)
                 else Inr s1)"

definition onPointerUp :: "config \<Rightarrow> state \<Rightarrow> state" where
  "onPointerUp cfg s =
     (if tool cfg = Pan then s\<lparr>isPanning := False, panLast := None\<rparr>
      else if tool cfg = Select then s\<lparr>interaction := None\<rparr>
      else if tool cfg = Laser then s\<lparr>drawing := False\<rparr>
      else endDrawing cfg s)"

definition onPointerLeave :: "state \<Rightarrow> state" where
  "onPointerLeave s =
     s\<lparr>drawing := False, isPanning := False, panLast := None, interaction := None, draft := None\<rparr>"

text \<open>A run of pointer-move events \<open>(clientX, clientY, now)\<close>; the first error stops it.\<close>

fun pointerMoves :: "config \<Rightarrow> (real \<times> real \<times> real) list \<Rightarrow> state \<Rightarrow> error + state" where
  "pointerMoves cfg [] s = Inr s"
| "pointerMoves cfg ((clientX, clientY, now) # ms) s =
     (case onPointerMove cfg clientX clientY now s of
        Inl e \<Rightarrow> Inl e
      | Inr s' \<Rightarrow> pointerMoves cfg ms s')"

subsection \<open>The hit-test order in the words of the specification\<close>

text \<open>
  For comparison with \<open>shapeUnderPointer\<close>: the rank of each kind in the query order
  "freehand strokes, then triangles, then arrows, then lines, then circles, then
  rectangles", and the hit test of the shape of a kind at an index, with the threshold
  \<open>shapeUnderPointer\<close> uses for that kind.
\<close>

fun hitOrder :: "Kind \<Rightarrow> nat" where
  "hitOrder KPen = 0"
| "hitOrder KTriangle = 1"
| "hitOrder KArrow = 2"
| "hitOrder KLine = 3"
| "hitOrder KCircle = 4"
| "hitOrder KRect = 5"

fun passesHitTest :: "state \<Rightarrow> real \<Rightarrow> real \<Rightarrow> Kind \<Rightarrow> nat \<Rightarrow> bool" where
  "passesHitTest s px py KPen i =
     (i < length (lines s) \<and>
      polylineHit (points (lines s ! i)) px py (max (4 / scale s) (pen_strokeWidth (lines s ! i) / 2)))"
| "passesHitTest s px py KTriangle i =
     (i < length (triangles s) \<and> triangleHit (triangles s ! i) px py (6 / scale s))"
| "passesHitTest s px py KArrow i =
     (i < length (arrows s) \<and> lineHit (arrows s ! i) px py (6 / scale s))"
| "passesHitTest s px py KLine i =
     (i < length (simpleLines s) \<and> lineHit (simpleLines s ! i) px py (6 / scale s))"
| "passesHitTest s px py KCircle i =
     (i < length (circles s) \<and> circleHit (circles s ! i) px py (6 / scale s))"
| "passesHitTest s px py KRect i =
     (i < length (rects s) \<and> rectHit (rects s ! i) px py (6 / scale s))"

subsection \<open>Scenes and the initial state\<close>

text \<open>The six shape sequences of a state, as one value.\<close>

definition sceneOf :: "state \<Rightarrow> Snapshot" where
  "sceneOf s =
     \<lparr>lines = lines s, rects = rects s, circles = circles s,
      simpleLines = simpleLines s, arrows = arrows s, triangles = triangles s\<rparr>"

text \<open>
  The initial values of the \<^verbatim>\<open>useState\<close> and \<^verbatim>\<open>useRef\<close> cells, and the state once the
  canvas element is mounted with its bounding rectangle at the origin of the page.
\<close>

definition initialState :: state where
  "initialState =
     \<lparr>lines = [], rects = [], circles = [], simpleLines = [], arrows = [], triangles = [],
      scale = 1, offset = (0, 0), isPanning = False, panLast = None, draft = None,
      drawing = False, erasingPath = [], laser = [], selected = None, interaction = None,
      history = [], eraserCursor = None, canvas = None\<rparr>"

definition mountedState :: state where
  "mountedState = initialState\<lparr>canvas := Some (0, 0)\<rparr>"

section \<open>Properties\<close>

subsection \<open>The eraser segmenter\<close>

lemma hypot_le_iff: "hypot a b \<le> r \<longleftrightarrow> 0 \<le> r \<and> a * a + b * b \<le> r * r"
proof (cases "0 \<le> r")
  case True
  then have "sqrt (r * r) = r"
    by simp
  then have "sqrt (a * a + b * b) \<le> r \<longleftrightarrow> sqrt (a * a + b * b) \<le> sqrt (r * r)"
    by simp
  also have "\<dots> \<longleftrightarrow> a * a + b * b \<le> r * r"
    by (rule real_sqrt_le_iff)
  finally show ?thesis
    using True by (simp add: hypot_def)
next
  case False
  have "0 \<le> sqrt (a * a + b * b)"
    by simp
  with False show ?thesis
    unfolding hypot_def by linarith
qed

lemma nearPath_iff: "nearPath (fst p) (snd p) path radius = erasedBy path radius p"
  by (induction path) (auto simp: erasedBy_def)

lemma maximalRuns_Nil: "maximalRuns e [] = []"
  by (simp add: maximalRuns.simps)

lemma maximalRuns_erased: "e p \<Longrightarrow> maximalRuns e (p # ps) = maximalRuns e ps"
  by (subst maximalRuns.simps, subst (2) maximalRuns.simps) simp

lemma maximalRuns_unfold_kept:
  assumes "\<not> e c"
  shows "maximalRuns e (c # cs)
         = takeWhile (\<lambda>x. \<not> e x) (c # cs) # maximalRuns e (dropWhile (\<lambda>x. \<not> e x) (c # cs))"
proof -
  have "dropWhile e (c # cs) = c # cs"
    using assms by simp
  then show ?thesis
    by (subst maximalRuns.simps) (simp only: list.case)
qed

lemma maximalRuns_kept_then_erased:
  assumes "cur \<noteq> []" and "\<forall>p \<in> set cur. \<not> e p" and "e p"
  shows "maximalRuns e (cur @ p # ps) = cur # maximalRuns e ps"
proof -
  obtain c cs where cur: "cur = c # cs"
    using assms(1) by (cases cur) auto
  have c: "\<not> e c"
    using assms(2) cur by simp
  have t: "takeWhile (\<lambda>x. \<not> e x) (cur @ p # ps) = cur"
    using assms(2,3) by (simp add: takeWhile_append2)
  have r: "dropWhile (\<lambda>x. \<not> e x) (cur @ p # ps) = p # ps"
    using assms(2,3) by (simp add: dropWhile_append2)
  have "maximalRuns e (c # (cs @ p # ps)) = cur # maximalRuns e (p # ps)"
    using t r maximalRuns_unfold_kept [of e c "cs @ p # ps", OF c] cur by simp
  then show ?thesis
    using assms(3) cur by (simp add: maximalRuns_erased)
qed

lemma maximalRuns_kept_end:
  assumes "cur \<noteq> []" and "\<forall>p \<in> set cur. \<not> e p"
  shows "maximalRuns e cur = [cur]"
proof -
  obtain c cs where cur: "cur = c # cs"
    using assms(1) by (cases cur) auto
  have c: "\<not> e c"
    using assms(2) cur by simp
  have t: "takeWhile (\<lambda>x. \<not> e x) cur = cur"
    using assms(2) by simp
  have r: "dropWhile (\<lambda>x. \<not> e x) cur = []"
    using assms(2) by simp
  show ?thesis
    using t r maximalRuns_unfold_kept [of e c cs, OF c] cur by (simp add: maximalRuns_Nil)
qed

lemma buildSegments_acc:
  "buildSegments pks cur segs = segs @ buildSegments pks cur []"
proof (induction pks arbitrary: cur segs)
  case Nil
  show ?case by simp
next
  case (Cons a pks)
  obtain p k where a: "a = (p, k)" by (cases a)
  show ?case
    using Cons.IH [of "cur @ [p]" segs] Cons.IH [of "[]" "segs @ [cur]"] Cons.IH [of "[]" "[cur]"]
      Cons.IH [of "[]" segs]
    by (simp add: a)
qed

lemma buildSegments_runs:
  assumes "\<forall>p \<in> set cur. \<not> e p"
  shows "buildSegments (zip ps (map (\<lambda>p. \<not> e p) ps)) cur []
         = filter (\<lambda>run. 2 \<le> length run) (maximalRuns e (cur @ ps))"
  using assms
proof (induction ps arbitrary: cur)
  case Nil
  then show ?case
    by (cases "cur = []") (simp_all add: maximalRuns_Nil maximalRuns_kept_end)
next
  case (Cons p ps)
  show ?case
  proof (cases "e p")
    case False
    then have "\<forall>q \<in> set (cur @ [p]). \<not> e q"
      using Cons.prems by simp
    from Cons.IH [OF this] False show ?thesis
      by simp
  next
    case True
    have step: "buildSegments (zip (p # ps) (map (\<lambda>p. \<not> e p) (p # ps))) cur []
        = (if 2 \<le> length cur then [cur] else []) @ buildSegments (zip ps (map (\<lambda>p. \<not> e p) ps)) [] []"
      using True buildSegments_acc [of _ "[]" "[cur]"] by simp
    have ih: "buildSegments (zip ps (map (\<lambda>p. \<not> e p) ps)) [] []
        = filter (\<lambda>run. 2 \<le> length run) (maximalRuns e ps)"
      using Cons.IH [of "[]"] by simp
    show ?thesis
    proof (cases "cur = []")
      case True
      with step ih \<open>e p\<close> show ?thesis
        by (simp add: maximalRuns_erased)
    next
      case False
      with step ih \<open>e p\<close> Cons.prems show ?thesis
        by (simp add: maximalRuns_kept_then_erased)
    qed
  qed
qed

lemma splitPolylineByEraser_eq_runs:
  assumes "2 \<le> length pts"
  shows "splitPolylineByEraser pts path radius
         = filter (\<lambda>run. 2 \<le> length run) (maximalRuns (erasedBy path radius) pts)"
proof -
  have k: "keepFlags pts path radius = map (\<lambda>p. \<not> erasedBy path radius p) pts"
    by (simp add: keepFlags_def nearPath_iff)
  have "buildSegments (zip pts (keepFlags pts path radius)) [] []
        = filter (\<lambda>run. 2 \<le> length run) (maximalRuns (erasedBy path radius) ([] @ pts))"
    unfolding k by (rule buildSegments_runs) simp
  then show ?thesis
    using assms by (simp add: splitPolylineByEraser_def)
qed

lemma maximalRuns_all_erased: "\<forall>p \<in> set xs. e p \<Longrightarrow> maximalRuns e xs = []"
  by (induction xs) (simp_all add: maximalRuns_Nil maximalRuns_erased)

text \<open>
  A check of \<open>maximalRuns\<close> itself: its runs, one after the other, are the points that are
  not erased, in their order in the stroke.
\<close>

lemma concat_maximalRuns: "concat (maximalRuns e xs) = filter (\<lambda>x. \<not> e x) xs"
proof (induction "length xs" arbitrary: xs rule: less_induct)
  case less
  show ?case
  proof (cases xs)
    case Nil
    then show ?thesis by (simp add: maximalRuns_Nil)
  next
    case (Cons x rest)
    show ?thesis
    proof (cases "e x")
      case True
      have "concat (maximalRuns e rest) = filter (\<lambda>x. \<not> e x) rest"
        using less [of rest] Cons by simp
      with True Cons show ?thesis
        by (simp add: maximalRuns_erased)
    next
      case False
      let ?k = "\<lambda>x. \<not> e x"
      have len: "length (dropWhile ?k rest) < length xs"
        using Cons length_dropWhile_le [of ?k rest] by simp
      have ih: "concat (maximalRuns e (dropWhile ?k rest)) = filter ?k (dropWhile ?k rest)"
        using less [OF len] .
      have u: "maximalRuns e (x # rest) = (x # takeWhile ?k rest) # maximalRuns e (dropWhile ?k rest)"
        using maximalRuns_unfold_kept [of e x rest, OF False] False by simp
      have "filter ?k rest = filter ?k (takeWhile ?k rest @ dropWhile ?k rest)"
        by simp
      also have "\<dots> = filter ?k (takeWhile ?k rest) @ filter ?k (dropWhile ?k rest)"
        by (rule filter_append)
      also have "filter ?k (takeWhile ?k rest) = takeWhile ?k rest"
        by (rule filter_True) (auto dest: set_takeWhileD)
      finally have f: "filter ?k rest = takeWhile ?k rest @ filter ?k (dropWhile ?k rest)" .
      show ?thesis
        unfolding Cons u using ih f False by simp
    qed
  qed
qed

text \<open>
  Claim C4, as amended. A stroke of fewer than two points is returned as it is, as the one
  output stroke. For a stroke of two points or more: the flag computed for a point says
  "erased" exactly when some point of the eraser path lies within the radius of it; the
  output is the list of the maximal runs of consecutive points that are not erased, in
  their order in the stroke, without the runs of a single point; and when every point is
  erased the output is empty.
\<close>

theorem splitPolylineByEraser_refines_runs:
  "(length pts < 2 \<longrightarrow> splitPolylineByEraser pts path radius = [pts]) \<and>
   (2 \<le> length pts \<longrightarrow>
      (\<forall>p. nearPath (fst p) (snd p) path radius = erasedBy path radius p) \<and>
      splitPolylineByEraser pts path radius
        = filter (\<lambda>run. 2 \<le> length run) (maximalRuns (erasedBy path radius) pts) \<and>
      ((\<forall>p \<in> set pts. erasedBy path radius p) \<longrightarrow> splitPolylineByEraser pts path radius = []))"
proof (intro conjI impI allI)
  assume "length pts < 2"
  then show "splitPolylineByEraser pts path radius = [pts]"
    by (simp add: splitPolylineByEraser_def)
next
  fix p
  show "nearPath (fst p) (snd p) path radius = erasedBy path radius p"
    by (rule nearPath_iff)
next
  assume "2 \<le> length pts"
  then show "splitPolylineByEraser pts path radius
        = filter (\<lambda>run. 2 \<le> length run) (maximalRuns (erasedBy path radius) pts)"
    by (rule splitPolylineByEraser_eq_runs)
next
  assume "2 \<le> length pts" and "\<forall>p \<in> set pts. erasedBy path radius p"
  then show "splitPolylineByEraser pts path radius = []"
    by (simp add: splitPolylineByEraser_eq_runs maximalRuns_all_erased)
qed

theorem splitPolylineByEraser_refines_runs_witness:
  "splitPolylineByEraser [(5, 5)] [(0, 0)] 1 = [[(5, 5)]] \<and>
   splitPolylineByEraser [(0, 0), (1, 0), (10, 0), (20, 0), (30, 0), (31, 0), (32, 0)] [(10, 0), (20, 0)] 2
     = [[(0, 0), (1, 0)], [(30, 0), (31, 0), (32, 0)]]"
  using splitPolylineByEraser_refines_runs [of "[(5, 5)]" "[(0, 0)]" 1]
    splitPolylineByEraser_refines_runs [of "[(0, 0), (1, 0), (10, 0), (20, 0), (30, 0), (31, 0), (32, 0)]" "[(10, 0), (20, 0)]" 2]
  by (simp add: erasedBy_def hypot_le_iff maximalRuns_unfold_kept maximalRuns_erased maximalRuns_Nil)

text \<open>
  Claim C4 as it was stated fails on a stroke of one point: its point is erased, and the
  segmenter returns the stroke.
\<close>

theorem splitPolylineByEraser_refines_runs_counterexample:
  "erasedBy [(0, 0)] 1 (0, 0) \<and> splitPolylineByEraser [(0, 0)] [(0, 0)] 1 = [[(0, 0)]]"
  by (simp add: splitPolylineByEraser_def erasedBy_def hypot_le_iff)

lemma splitPolylineByEraser_one_erased:
  assumes l: "\<forall>p \<in> set l. \<not> erasedBy path radius p"
    and m: "erasedBy path radius m"
    and r: "\<forall>p \<in> set r. \<not> erasedBy path radius p"
    and n: "l \<noteq> [] \<or> r \<noteq> []"
  shows "splitPolylineByEraser (l @ m # r) path radius = filter (\<lambda>run. 2 \<le> length run) [l, r]"
proof -
  let ?e = "erasedBy path radius"
  have rr: "filter (\<lambda>run. 2 \<le> length run) (maximalRuns ?e r) = filter (\<lambda>run. 2 \<le> length run) [r]"
    using r by (cases "r = []") (simp_all add: maximalRuns_Nil maximalRuns_kept_end)
  have "filter (\<lambda>run. 2 \<le> length run) (maximalRuns ?e (l @ m # r))
        = filter (\<lambda>run. 2 \<le> length run) [l, r]"
  proof (cases "l = []")
    case True
    then show ?thesis
      using m rr by (simp add: maximalRuns_erased)
  next
    case False
    then show ?thesis
      using l m rr by (simp add: maximalRuns_kept_then_erased)
  qed
  moreover have "2 \<le> length (l @ m # r)"
    using n by (cases l; cases r; simp)
  ultimately show ?thesis
    by (simp only: splitPolylineByEraser_eq_runs)
qed

text \<open>
  Claim C3, as amended. When the eraser path is within the radius of the middle point only
  of a stroke of three points, the segmenter returns no stroke: each of the two runs that
  are left is a single point. When one point is erased and at least two points are left
  on each side of it, the segmenter returns exactly these two runs. When every point of a
  stroke of at least two points is within the radius of the path, it returns no stroke.
\<close>

theorem splitPolylineByEraser_midpoint:
  "(\<not> erasedBy path radius a \<and> erasedBy path radius m \<and> \<not> erasedBy path radius b \<longrightarrow>
      splitPolylineByEraser [a, m, b] path radius = []) \<and>
   ((\<forall>p \<in> set l. \<not> erasedBy path radius p) \<and> erasedBy path radius m \<and>
    (\<forall>p \<in> set r. \<not> erasedBy path radius p) \<and> 2 \<le> length l \<and> 2 \<le> length r \<longrightarrow>
      splitPolylineByEraser (l @ m # r) path radius = [l, r]) \<and>
   (2 \<le> length pts \<and> (\<forall>p \<in> set pts. erasedBy path radius p) \<longrightarrow>
      splitPolylineByEraser pts path radius = [])"
proof (intro conjI impI)
  assume "\<not> erasedBy path radius a \<and> erasedBy path radius m \<and> \<not> erasedBy path radius b"
  then show "splitPolylineByEraser [a, m, b] path radius = []"
    using splitPolylineByEraser_one_erased [of "[a]" path radius m "[b]"] by simp
next
  assume h: "(\<forall>p \<in> set l. \<not> erasedBy path radius p) \<and> erasedBy path radius m \<and>
    (\<forall>p \<in> set r. \<not> erasedBy path radius p) \<and> 2 \<le> length l \<and> 2 \<le> length r"
  then have "l \<noteq> [] \<or> r \<noteq> []"
    by auto
  with h show "splitPolylineByEraser (l @ m # r) path radius = [l, r]"
    using splitPolylineByEraser_one_erased [of l path radius m r] by simp
next
  assume "2 \<le> length pts \<and> (\<forall>p \<in> set pts. erasedBy path radius p)"
  then show "splitPolylineByEraser pts path radius = []"
    by (simp add: splitPolylineByEraser_eq_runs maximalRuns_all_erased)
qed

theorem splitPolylineByEraser_midpoint_witness:
  "splitPolylineByEraser [(0, 0), (10, 0), (20, 0)] [(10, 0)] 2 = [] \<and>
   splitPolylineByEraser [(0, 0), (1, 0), (10, 0), (20, 0), (21, 0)] [(10, 0)] 2
     = [[(0, 0), (1, 0)], [(20, 0), (21, 0)]] \<and>
   splitPolylineByEraser [(9, 0), (10, 0), (11, 0)] [(10, 0)] 2 = []"
  using splitPolylineByEraser_midpoint [of "[(10, 0)]" 2 "(0, 0)" "(10, 0)" "(20, 0)"
      "[(0, 0), (1, 0)]" "[(20, 0), (21, 0)]" "[(9, 0), (10, 0), (11, 0)]"]
  by (simp add: erasedBy_def hypot_le_iff)

text \<open>
  Claim C3 as it was stated fails: erasing the middle point of a straight stroke of three
  points with a radius below half the segment length leaves no stroke, not two; and a
  stroke of one point that the path covers comes back as one stroke, not none.
\<close>

theorem splitPolylineByEraser_midpoint_counterexample:
  "\<not> erasedBy [(10, 0)] 2 (0, 0) \<and> erasedBy [(10, 0)] 2 (10, 0) \<and> \<not> erasedBy [(10, 0)] 2 (20, 0) \<and>
   splitPolylineByEraser [(0, 0), (10, 0), (20, 0)] [(10, 0)] 2 = [] \<and>
   erasedBy [(0, 0)] 1 (0, 0) \<and>
   splitPolylineByEraser [(0, 0)] [(0, 0)] 1 = [[(0, 0)]]"
  by (simp add: splitPolylineByEraser_def keepFlags_def erasedBy_def hypot_le_iff)

subsection \<open>The history stack\<close>

lemma history_pushHistory:
  "history (pushHistory s)
   = (if MAX_HISTORY < Suc (length (history s)) then tl (history s @ [sceneOf s]) else history s @ [sceneOf s])"
  by (simp add: pushHistory_def sceneOf_def Let_def)

lemma pushHistory_fold:
  "length h \<le> MAX_HISTORY \<Longrightarrow>
   foldl (\<lambda>h st. history (pushHistory (st\<lparr>history := h\<rparr>))) h sts
   = drop (length h + length sts - MAX_HISTORY) (h @ map sceneOf sts)"
proof (induction sts arbitrary: h)
  case Nil
  then show ?case by simp
next
  case (Cons st sts)
  let ?h' = "history (pushHistory (st\<lparr>history := h\<rparr>))"
  have sc: "sceneOf (st\<lparr>history := h\<rparr>) = sceneOf st"
    by (simp add: sceneOf_def)
  show ?case
  proof (cases "length h = MAX_HISTORY")
    case True
    then have ne: "h \<noteq> []"
      by (auto simp: MAX_HISTORY_def)
    have h': "?h' = tl h @ [sceneOf st]"
      using True ne by (simp add: history_pushHistory sc)
    have len: "length ?h' \<le> MAX_HISTORY"
      unfolding h' using True ne by (simp add: MAX_HISTORY_def)
    have "foldl (\<lambda>h st. history (pushHistory (st\<lparr>history := h\<rparr>))) ?h' sts
          = drop (length ?h' + length sts - MAX_HISTORY) (?h' @ map sceneOf sts)"
      by (rule Cons.IH [OF len])
    also have "\<dots> = drop (length sts) (tl (h @ sceneOf st # map sceneOf sts))"
      unfolding h' using True ne by (simp add: MAX_HISTORY_def)
    also have "\<dots> = drop (Suc (length sts)) (h @ sceneOf st # map sceneOf sts)"
      by (simp only: drop_Suc)
    also have "\<dots> = drop (length h + length (st # sts) - MAX_HISTORY) (h @ map sceneOf (st # sts))"
      using True by simp
    finally show ?thesis by (simp add: h')
  next
    case False
    with Cons.prems have lt: "length h < MAX_HISTORY" by simp
    then have h': "?h' = h @ [sceneOf st]"
      by (simp add: history_pushHistory sc)
    have len: "length ?h' \<le> MAX_HISTORY"
      unfolding h' using lt by simp
    have "foldl (\<lambda>h st. history (pushHistory (st\<lparr>history := h\<rparr>))) ?h' sts
          = drop (length ?h' + length sts - MAX_HISTORY) (?h' @ map sceneOf sts)"
      by (rule Cons.IH [OF len])
    then show ?thesis
      by (simp add: h')
  qed
qed

lemma last_history_pushHistory:
  "history (pushHistory s) \<noteq> [] \<and> last (history (pushHistory s)) = sceneOf s"
proof (cases "history s")
  case Nil
  then show ?thesis
    by (simp add: history_pushHistory MAX_HISTORY_def)
next
  case (Cons a h)
  then have "tl (history s @ [sceneOf s]) = h @ [sceneOf s]"
    by simp
  then show ?thesis
    by (simp add: history_pushHistory)
qed

lemma sceneOf_pushHistory: "sceneOf (pushHistory s) = sceneOf s"
  by (simp add: pushHistory_def sceneOf_def Let_def)

text \<open>
  Claim C9. The history starts empty and 150 snapshots are pushed, the \<open>n\<close>-th push in a
  state \<open>sts ! n\<close> whose scene is arbitrary and whose history is what the push before
  left. The stack then holds exactly 100 snapshots: the scenes of the last 100 pushes, in
  the order of the pushes. The 50 oldest are gone.
\<close>

theorem pushHistory_bound:
  assumes "length sts = 150"
  shows "length (foldl (\<lambda>h st. history (pushHistory (st\<lparr>history := h\<rparr>))) [] sts) = 100 \<and>
         foldl (\<lambda>h st. history (pushHistory (st\<lparr>history := h\<rparr>))) [] sts = map sceneOf (drop 50 sts)"
  using assms pushHistory_fold [of "[]" sts] by (simp add: MAX_HISTORY_def drop_map)

theorem pushHistory_bound_witness:
  "length (foldl (\<lambda>h st. history (pushHistory (st\<lparr>history := h\<rparr>))) []
             (map (\<lambda>n. initialState\<lparr>erasingPath := [], lines := [\<lparr>points = [(real n, 0)], pen_color = [], pen_strokeWidth = 1, pen_brushStyle = Round\<rparr>]\<rparr>) [0 ..< 150])) = 100 \<and>
   foldl (\<lambda>h st. history (pushHistory (st\<lparr>history := h\<rparr>))) []
             (map (\<lambda>n. initialState\<lparr>erasingPath := [], lines := [\<lparr>points = [(real n, 0)], pen_color = [], pen_strokeWidth = 1, pen_brushStyle = Round\<rparr>]\<rparr>) [0 ..< 150])
     = map sceneOf (drop 50 (map (\<lambda>n. initialState\<lparr>erasingPath := [], lines := [\<lparr>points = [(real n, 0)], pen_color = [], pen_strokeWidth = 1, pen_brushStyle = Round\<rparr>]\<rparr>) [0 ..< 150]))"
  using pushHistory_bound [of "map (\<lambda>n. initialState\<lparr>erasingPath := [], lines := [\<lparr>points = [(real n, 0)], pen_color = [], pen_strokeWidth = 1, pen_brushStyle = Round\<rparr>]\<rparr>) [0 ..< 150]"]
  by simp

text \<open>
  Claim C10. Undo is the key \<^verbatim>\<open>z\<close> with Ctrl or Meta held. On an empty history it
  returns the state as it is: the six shape sequences, the draft and the selection are
  unchanged, and no error is raised. On a history that is not empty the six sequences
  become those of the last snapshot, which leaves the stack, and the draft and the
  selection become none.
\<close>

theorem onKey_undo:
  assumes "(ctrlKey \<or> metaKey) \<and> (key = ''z'' \<or> key = ''Z'')"
  shows "(history s = [] \<longrightarrow> onKey ctrlKey metaKey key s = s) \<and>
         (history s \<noteq> [] \<longrightarrow>
            sceneOf (onKey ctrlKey metaKey key s) = last (history s) \<and>
            draft (onKey ctrlKey metaKey key s) = None \<and>
            selected (onKey ctrlKey metaKey key s) = None \<and>
            history (onKey ctrlKey metaKey key s) = butlast (history s))"
  using assms by (simp add: onKey_def sceneOf_def Let_def)

theorem onKey_undo_witness:
  "onKey True False ''z'' (mountedState\<lparr>draft := Some (DraftCircle 0 0 1), selected := Some (KRect, 0)\<rparr>)
     = mountedState\<lparr>draft := Some (DraftCircle 0 0 1), selected := Some (KRect, 0)\<rparr> \<and>
   sceneOf (onKey False True ''Z''
      (mountedState\<lparr>draft := Some (DraftCircle 0 0 1), selected := Some (KCircle, 0),
         circles := [\<lparr>circle_x = 0, circle_y = 0, circle_radius = 5, circle_stroke = [],
                      circle_strokeWidth = 3, circle_dashed = False\<rparr>],
         history := [sceneOf initialState]\<rparr>)) = sceneOf initialState \<and>
   draft (onKey False True ''Z''
      (mountedState\<lparr>draft := Some (DraftCircle 0 0 1), selected := Some (KCircle, 0),
         circles := [\<lparr>circle_x = 0, circle_y = 0, circle_radius = 5, circle_stroke = [],
                      circle_strokeWidth = 3, circle_dashed = False\<rparr>],
         history := [sceneOf initialState]\<rparr>)) = None \<and>
   selected (onKey False True ''Z''
      (mountedState\<lparr>draft := Some (DraftCircle 0 0 1), selected := Some (KCircle, 0),
         circles := [\<lparr>circle_x = 0, circle_y = 0, circle_radius = 5, circle_stroke = [],
                      circle_strokeWidth = 3, circle_dashed = False\<rparr>],
         history := [sceneOf initialState]\<rparr>)) = None"
  using onKey_undo [of True False "''z''"
      "mountedState\<lparr>draft := Some (DraftCircle 0 0 1), selected := Some (KRect, 0)\<rparr>"]
    onKey_undo [of False True "''Z''"
      "mountedState\<lparr>draft := Some (DraftCircle 0 0 1), selected := Some (KCircle, 0),
         circles := [\<lparr>circle_x = 0, circle_y = 0, circle_radius = 5, circle_stroke = [],
                      circle_strokeWidth = 3, circle_dashed = False\<rparr>],
         history := [sceneOf initialState]\<rparr>"]
  by (simp add: mountedState_def initialState_def)

subsection \<open>The viewport\<close>

text \<open>
  Claim C2. For every wheel event at a screen point and every state whose scale is not
  zero, the world point under the pointer computed with the scale and offset that
  \<open>handleWheel\<close> leaves equals the one computed before the event, and the new scale lies
  within the bounds, whether the clamp was applied or not. Numbers are reals here, so
  the equality is exact.
\<close>

theorem handleWheel_zoom_to_pointer:
  assumes "scale s \<noteq> 0"
  shows "getWorldPoint (handleWheel deltaY clientX clientY s) clientX clientY
           = getWorldPoint s clientX clientY \<and>
         MIN_SCALE \<le> scale (handleWheel deltaY clientX clientY s) \<and>
         scale (handleWheel deltaY clientX clientY s) \<le> MAX_SCALE"
proof -
  define raw where "raw = (if deltaY > 0 then scale s / SCALE_BY else scale s * SCALE_BY)"
  define newScale where "newScale = min MAX_SCALE (max MIN_SCALE raw)"
  have pos: "newScale \<noteq> 0" and lo: "MIN_SCALE \<le> newScale" and hi: "newScale \<le> MAX_SCALE"
    by (simp_all add: newScale_def MIN_SCALE_def MAX_SCALE_def min_def max_def)
  show ?thesis
  proof (cases "canvas s")
    case None
    have "handleWheel deltaY clientX clientY s = s\<lparr>scale := newScale\<rparr>"
      by (simp add: handleWheel_def Let_def newScale_def raw_def None)
    then show ?thesis
      using lo hi by (simp add: getWorldPoint_def None)
  next
    case (Some rect)
    define before where "before = getWorldPoint s clientX clientY"
    have "handleWheel deltaY clientX clientY s
          = s\<lparr>scale := newScale,
               offset := (clientX - fst rect - fst before * newScale,
                          clientY - snd rect - snd before * newScale)\<rparr>"
      by (simp add: handleWheel_def Let_def newScale_def raw_def before_def Some)
    then have "getWorldPoint (handleWheel deltaY clientX clientY s) clientX clientY = before"
      using pos by (simp add: getWorldPoint_def Some)
    moreover have "scale (handleWheel deltaY clientX clientY s) = newScale"
      by (simp add: handleWheel_def Let_def newScale_def raw_def Some)
    ultimately show ?thesis
      using lo hi by (simp add: before_def)
  qed
qed

theorem handleWheel_zoom_to_pointer_witness:
  "getWorldPoint (handleWheel (- 1) 40 30 (mountedState\<lparr>scale := 3, offset := (7, 9)\<rparr>)) 40 30 = (11, 7) \<and>
   getWorldPoint (mountedState\<lparr>scale := 3, offset := (7, 9)\<rparr>) 40 30 = (11, 7) \<and>
   scale (handleWheel (- 1) 40 30 (mountedState\<lparr>scale := 3, offset := (7, 9)\<rparr>)) = 3 \<and>
   getWorldPoint (handleWheel 1 40 30 (mountedState\<lparr>scale := 2.1, offset := (19, 9)\<rparr>)) 40 30 = (10, 10) \<and>
   scale (handleWheel 1 40 30 (mountedState\<lparr>scale := 2.1, offset := (19, 9)\<rparr>)) = 2"
  using handleWheel_zoom_to_pointer [of "mountedState\<lparr>scale := 3, offset := (7, 9)\<rparr>" "- 1" 40 30]
    handleWheel_zoom_to_pointer [of "mountedState\<lparr>scale := 2.1, offset := (19, 9)\<rparr>" 1 40 30]
  by (simp add: mountedState_def initialState_def getWorldPoint_def handleWheel_def
      MIN_SCALE_def MAX_SCALE_def SCALE_BY_def Let_def)

subsection \<open>The triangle draft\<close>

lemma selectInteraction_other_tool: "tool cfg \<noteq> Select \<Longrightarrow> selectInteraction cfg pos s = None"
  by (simp add: selectInteraction_def)

text \<open>
  Claim C5, as amended. While a triangle is drafted from the vertex \<open>(x1, y1)\<close>, a
  pointer move to the world point \<open>(x2, y2)\<close> makes the third vertex the mirror image of
  the second across the vertical line through the first: \<open>(x3, y3) = (2 * x1 - x2, y2)\<close>.
\<close>

theorem onPointerMove_triangle_draft:
  assumes "tool cfg = Triangle"
    and "draft s = Some (DraftTriangle x1 y1 a b c d)"
    and "getWorldPoint s clientX clientY = (x2, y2)"
  shows "\<exists>s'. onPointerMove cfg clientX clientY now s = Inr s' \<and>
           draft s' = Some (DraftTriangle x1 y1 x2 y2 (2 * x1 - x2) y2)"
proof -
  have "onPointerMove cfg clientX clientY now s = Inr (updateDrawing cfg (x2, y2) s)"
    using assms by (simp add: onPointerMove_def selectInteraction_other_tool Let_def split: option.split)
  moreover have "draft (updateDrawing cfg (x2, y2) s) = Some (DraftTriangle x1 y1 x2 y2 (2 * x1 - x2) y2)"
    using assms by (simp add: updateDrawing_def Let_def)
  ultimately show ?thesis
    by simp
qed

theorem onPointerMove_triangle_draft_witness:
  "\<exists>s'. onPointerMove \<lparr>tool = Triangle, color = [], strokeWidth = 3, brushStyle = Round\<rparr> 4 7 0
           (mountedState\<lparr>draft := Some (DraftTriangle 1 1 1 1 1 1)\<rparr>) = Inr s' \<and>
         draft s' = Some (DraftTriangle 1 1 4 7 (- 2) 7)"
  using onPointerMove_triangle_draft [of "\<lparr>tool = Triangle, color = [], strokeWidth = 3, brushStyle = Round\<rparr>"
      "mountedState\<lparr>draft := Some (DraftTriangle 1 1 1 1 1 1)\<rparr>" 1 1 1 1 1 1 4 7 4 7 0]
  by (simp add: mountedState_def initialState_def getWorldPoint_def)

text \<open>
  Claim C5 as it was stated fails: from the anchor \<open>(1, 1)\<close>, a move to \<open>(4, 7)\<close> gives the
  third vertex \<open>(- 2, 7)\<close>, not the point mirror \<open>(- 2, - 5)\<close>.
\<close>

theorem triangle_draft_mirror_counterexample:
  "(case onPointerDown \<lparr>tool = Triangle, color = [], strokeWidth = 3, brushStyle = Round\<rparr> 1 1 0 mountedState of
      Inl e \<Rightarrow> None
    | Inr s1 \<Rightarrow>
        (case onPointerMove \<lparr>tool = Triangle, color = [], strokeWidth = 3, brushStyle = Round\<rparr> 4 7 0 s1 of
           Inl e \<Rightarrow> None
         | Inr s2 \<Rightarrow> draft s2))
     = Some (DraftTriangle 1 1 4 7 (- 2) 7) \<and>
   (- 2, 7) \<noteq> (2 * 1 - 4, 2 * 1 - 7 :: real)"
  by (simp add: onPointerDown_def onPointerMove_def mountedState_def initialState_def getWorldPoint_def
      pushHistory_def startDrawing_def updateDrawing_def selectInteraction_def Let_def)

subsection \<open>The shape under the pointer\<close>

text \<open>The downward loop returns the greatest index below \<open>n\<close> whose element hits.\<close>

lemma scanDown_SomeD:
  "scanDown hit xs n = Some i \<Longrightarrow> i < n \<and> hit (xs ! i) \<and> (\<forall>j. i < j \<and> j < n \<longrightarrow> \<not> hit (xs ! j))"
proof (induction n)
  case 0
  then show ?case by simp
next
  case (Suc n)
  show ?case
  proof (cases "hit (xs ! n)")
    case True
    then have "i = n"
      using Suc.prems by simp
    with True show ?thesis
      by auto
  next
    case False
    then have "scanDown hit xs n = Some i"
      using Suc.prems by simp
    then have ih: "i < n \<and> hit (xs ! i) \<and> (\<forall>j. i < j \<and> j < n \<longrightarrow> \<not> hit (xs ! j))"
      by (rule Suc.IH)
    have "\<not> hit (xs ! j)" if "i < j \<and> j < Suc n" for j
    proof (cases "j = n")
      case True
      with False show ?thesis by simp
    next
      case False
      with that have "j < n" by simp
      with that ih show ?thesis by simp
    qed
    with ih show ?thesis
      by simp
  qed
qed

lemma scanDown_SomeI:
  "i < n \<Longrightarrow> hit (xs ! i) \<Longrightarrow> (\<forall>j. i < j \<and> j < n \<longrightarrow> \<not> hit (xs ! j)) \<Longrightarrow> scanDown hit xs n = Some i"
proof (induction n)
  case 0
  then show ?case by simp
next
  case (Suc n)
  show ?case
  proof (cases "i = n")
    case True
    with Suc.prems show ?thesis by simp
  next
    case False
    with Suc.prems have lt: "i < n" by simp
    then have "\<not> hit (xs ! n)"
      using Suc.prems(3) by simp
    moreover have "scanDown hit xs n = Some i"
      using lt Suc.prems(2,3) by (intro Suc.IH) simp_all
    ultimately show ?thesis
      by simp
  qed
qed

lemma scanDown_Some_iff:
  "scanDown hit xs n = Some i \<longleftrightarrow> i < n \<and> hit (xs ! i) \<and> (\<forall>j. i < j \<and> j < n \<longrightarrow> \<not> hit (xs ! j))"
proof
  assume "scanDown hit xs n = Some i"
  then show "i < n \<and> hit (xs ! i) \<and> (\<forall>j. i < j \<and> j < n \<longrightarrow> \<not> hit (xs ! j))"
    by (rule scanDown_SomeD)
next
  assume r: "i < n \<and> hit (xs ! i) \<and> (\<forall>j. i < j \<and> j < n \<longrightarrow> \<not> hit (xs ! j))"
  show "scanDown hit xs n = Some i"
  proof (rule scanDown_SomeI)
    show "i < n" using r by (rule conjunct1)
    show "hit (xs ! i)" using r by (elim conjE)
    show "\<forall>j. i < j \<and> j < n \<longrightarrow> \<not> hit (xs ! j)" using r by (elim conjE)
  qed
qed

lemma scanDown_None_iff: "scanDown hit xs n = None \<longleftrightarrow> (\<forall>j < n. \<not> hit (xs ! j))"
  by (induction n) (simp_all add: All_less_Suc)

lemma hitOrder_less_cases:
  "(\<forall>k'. hitOrder k' < hitOrder KPen \<longrightarrow> Q k') \<longleftrightarrow> True"
  "(\<forall>k'. hitOrder k' < hitOrder KTriangle \<longrightarrow> Q k') \<longleftrightarrow> Q KPen"
  "(\<forall>k'. hitOrder k' < hitOrder KArrow \<longrightarrow> Q k') \<longleftrightarrow> Q KPen \<and> Q KTriangle"
  "(\<forall>k'. hitOrder k' < hitOrder KLine \<longrightarrow> Q k') \<longleftrightarrow> Q KPen \<and> Q KTriangle \<and> Q KArrow"
  "(\<forall>k'. hitOrder k' < hitOrder KCircle \<longrightarrow> Q k') \<longleftrightarrow> Q KPen \<and> Q KTriangle \<and> Q KArrow \<and> Q KLine"
  "(\<forall>k'. hitOrder k' < hitOrder KRect \<longrightarrow> Q k') \<longleftrightarrow>
     Q KPen \<and> Q KTriangle \<and> Q KArrow \<and> Q KLine \<and> Q KCircle"
proof -
  have c: "(\<forall>k'. R k') \<longleftrightarrow> R KPen \<and> R KTriangle \<and> R KArrow \<and> R KLine \<and> R KCircle \<and> R KRect"
    for R :: "Kind \<Rightarrow> bool"
  proof
    assume "\<forall>k'. R k'"
    then show "R KPen \<and> R KTriangle \<and> R KArrow \<and> R KLine \<and> R KCircle \<and> R KRect"
      by simp
  next
    assume a: "R KPen \<and> R KTriangle \<and> R KArrow \<and> R KLine \<and> R KCircle \<and> R KRect"
    show "\<forall>k'. R k'"
    proof
      fix k'
      show "R k'"
        using a by (cases k') simp_all
    qed
  qed
  show "(\<forall>k'. hitOrder k' < hitOrder KPen \<longrightarrow> Q k') \<longleftrightarrow> True"
    by simp
  show "(\<forall>k'. hitOrder k' < hitOrder KTriangle \<longrightarrow> Q k') \<longleftrightarrow> Q KPen"
    by (subst c) simp
  show "(\<forall>k'. hitOrder k' < hitOrder KArrow \<longrightarrow> Q k') \<longleftrightarrow> Q KPen \<and> Q KTriangle"
    by (subst c) simp
  show "(\<forall>k'. hitOrder k' < hitOrder KLine \<longrightarrow> Q k') \<longleftrightarrow> Q KPen \<and> Q KTriangle \<and> Q KArrow"
    by (subst c) simp
  show "(\<forall>k'. hitOrder k' < hitOrder KCircle \<longrightarrow> Q k') \<longleftrightarrow> Q KPen \<and> Q KTriangle \<and> Q KArrow \<and> Q KLine"
    by (subst c) simp
  show "(\<forall>k'. hitOrder k' < hitOrder KRect \<longrightarrow> Q k') \<longleftrightarrow>
     Q KPen \<and> Q KTriangle \<and> Q KArrow \<and> Q KLine \<and> Q KCircle"
    by (subst c) simp
qed

lemma Kind_all:
  "(\<forall>k'. R k') \<longleftrightarrow> R KPen \<and> R KTriangle \<and> R KArrow \<and> R KLine \<and> R KCircle \<and> R KRect"
proof
  assume "\<forall>k'. R k'"
  then show "R KPen \<and> R KTriangle \<and> R KArrow \<and> R KLine \<and> R KCircle \<and> R KRect"
    by simp
next
  assume a: "R KPen \<and> R KTriangle \<and> R KArrow \<and> R KLine \<and> R KCircle \<and> R KRect"
  show "\<forall>k'. R k'"
  proof
    fix k'
    show "R k'"
      using a by (cases k') simp_all
  qed
qed

text \<open>
  Claim C6. \<open>shapeUnderPointer\<close> returns the shape of kind \<open>k\<close> at index \<open>i\<close> exactly when
  that shape passes its hit test, no shape of the same kind inserted later passes, and no
  shape of a kind earlier in the order (freehand strokes, triangles, arrows, lines,
  circles, rectangles) passes at any index; it returns nothing exactly when no shape
  passes. In particular, when a freehand stroke and a rectangle both pass at the point, a
  freehand stroke is returned.
\<close>

theorem shapeUnderPointer_order:
  "(shapeUnderPointer s px py = Some (k, i) \<longleftrightarrow>
      passesHitTest s px py k i \<and>
      (\<forall>j > i. \<not> passesHitTest s px py k j) \<and>
      (\<forall>k' j. hitOrder k' < hitOrder k \<longrightarrow> \<not> passesHitTest s px py k' j)) \<and>
   (shapeUnderPointer s px py = None \<longleftrightarrow> (\<forall>k' j. \<not> passesHitTest s px py k' j)) \<and>
   (passesHitTest s px py KPen i1 \<and> passesHitTest s px py KRect i2 \<longrightarrow>
      (\<exists>i'. shapeUnderPointer s px py = Some (KPen, i')))"
proof -
  define sc where "sc = (\<lambda>k. case k of
      KPen \<Rightarrow> scanDown (\<lambda>l. polylineHit (points l) px py (max (4 / scale s) (pen_strokeWidth l / 2)))
                (lines s) (length (lines s))
    | KTriangle \<Rightarrow> scanDown (\<lambda>t. triangleHit t px py (6 / scale s)) (triangles s) (length (triangles s))
    | KArrow \<Rightarrow> scanDown (\<lambda>a. lineHit a px py (6 / scale s)) (arrows s) (length (arrows s))
    | KLine \<Rightarrow> scanDown (\<lambda>l. lineHit l px py (6 / scale s)) (simpleLines s) (length (simpleLines s))
    | KCircle \<Rightarrow> scanDown (\<lambda>c. circleHit c px py (6 / scale s)) (circles s) (length (circles s))
    | KRect \<Rightarrow> scanDown (\<lambda>r. rectHit r px py (6 / scale s)) (rects s) (length (rects s)))"
  have S: "sc k = Some i \<longleftrightarrow> passesHitTest s px py k i \<and> (\<forall>j > i. \<not> passesHitTest s px py k j)"
    for k i
    by (cases k) (auto simp: sc_def scanDown_Some_iff)
  have N: "sc k = None \<longleftrightarrow> (\<forall>j. \<not> passesHitTest s px py k j)" for k
    by (cases k) (auto simp: sc_def scanDown_None_iff)
  have U: "shapeUnderPointer s px py =
      (case sc KPen of Some i \<Rightarrow> Some (KPen, i) | None \<Rightarrow>
      (case sc KTriangle of Some i \<Rightarrow> Some (KTriangle, i) | None \<Rightarrow>
      (case sc KArrow of Some i \<Rightarrow> Some (KArrow, i) | None \<Rightarrow>
      (case sc KLine of Some i \<Rightarrow> Some (KLine, i) | None \<Rightarrow>
      (case sc KCircle of Some i \<Rightarrow> Some (KCircle, i) | None \<Rightarrow>
      (case sc KRect of Some i \<Rightarrow> Some (KRect, i) | None \<Rightarrow> None))))))"
    by (simp add: sc_def shapeUnderPointer_def cong: option.case_cong)
  have main: "shapeUnderPointer s px py = Some (k, i) \<longleftrightarrow>
      sc k = Some i \<and> (\<forall>k'. hitOrder k' < hitOrder k \<longrightarrow> sc k' = None)"
    unfolding U by (cases k; simp only: hitOrder_less_cases; auto split: option.splits)
  have none: "shapeUnderPointer s px py = None \<longleftrightarrow> (\<forall>k'. sc k' = None)"
    unfolding U by (subst Kind_all) (auto split: option.splits)
  have c1: "shapeUnderPointer s px py = Some (k, i) \<longleftrightarrow>
      passesHitTest s px py k i \<and>
      (\<forall>j > i. \<not> passesHitTest s px py k j) \<and>
      (\<forall>k' j. hitOrder k' < hitOrder k \<longrightarrow> \<not> passesHitTest s px py k' j)"
    unfolding main S N by blast
  have c2: "shapeUnderPointer s px py = None \<longleftrightarrow> (\<forall>k' j. \<not> passesHitTest s px py k' j)"
    unfolding none N by blast
  have c3: "\<exists>i'. shapeUnderPointer s px py = Some (KPen, i')" if "passesHitTest s px py KPen i1"
  proof -
    have "sc KPen \<noteq> None"
      using that N [of KPen] by blast
    then obtain i' where "sc KPen = Some i'"
      by (cases "sc KPen") auto
    then show ?thesis
      unfolding U by simp
  qed
  show ?thesis
    using c1 c2 c3 by blast
qed

theorem shapeUnderPointer_order_witness:
  "shapeUnderPointer
     (mountedState\<lparr>lines := [\<lparr>points = [(0, 0), (10, 0)], pen_color = [], pen_strokeWidth = 3,
                                pen_brushStyle = Round\<rparr>],
                    rects := [\<lparr>rect_x = 0, rect_y = 0, rect_width = 10, rect_height = 10,
                               rect_stroke = [], rect_strokeWidth = 3, rect_dashed = False\<rparr>]\<rparr>) 5 0
     = Some (KPen, 0) \<and>
   passesHitTest
     (mountedState\<lparr>lines := [\<lparr>points = [(0, 0), (10, 0)], pen_color = [], pen_strokeWidth = 3,
                                pen_brushStyle = Round\<rparr>],
                    rects := [\<lparr>rect_x = 0, rect_y = 0, rect_width = 10, rect_height = 10,
                               rect_stroke = [], rect_strokeWidth = 3, rect_dashed = False\<rparr>]\<rparr>) 5 0 KRect 0"
  using shapeUnderPointer_order [of
     "mountedState\<lparr>lines := [\<lparr>points = [(0, 0), (10, 0)], pen_color = [], pen_strokeWidth = 3,
                                pen_brushStyle = Round\<rparr>],
                    rects := [\<lparr>rect_x = 0, rect_y = 0, rect_width = 10, rect_height = 10,
                               rect_stroke = [], rect_strokeWidth = 3, rect_dashed = False\<rparr>]\<rparr>"
     5 0 KPen 0 0 0]
  by (simp add: mountedState_def initialState_def rectHit_def distPointToSeg_def hypot_le_iff Let_def)

subsection \<open>Resizing the selection\<close>




text \<open>
  Claim C7 fails on the code. The selected line runs from \<open>(10, 10)\<close> to \<open>(0, 0)\<close>. A
  pointer-down at \<open>(0, 0)\<close> takes handle 0, the corner \<open>(0, 0)\<close> of the bounding box, which
  is the second endpoint. The pointer move to \<open>(- 5, - 5)\<close> then moves the first endpoint,
  the one far from the handle, to \<open>(5, 5)\<close> and leaves the second where it was. The last
  two facts are the distances of the two endpoints from the handle.
\<close>

theorem resize_line_moves_far_endpoint:
  "(case onPointerDown \<lparr>tool = Select, color = [], strokeWidth = 3, brushStyle = Round\<rparr> 0 0 0
          (mountedState
             \<lparr>simpleLines := [\<lparr>line_x1 = 10, line_y1 = 10, line_x2 = 0, line_y2 = 0,
                                line_stroke = [], line_strokeWidth = 3, line_dashed = False\<rparr>],
              selected := Some (KLine, 0)\<rparr>) of
      Inl e \<Rightarrow> None
    | Inr s1 \<Rightarrow>
        (case onPointerMove \<lparr>tool = Select, color = [], strokeWidth = 3, brushStyle = Round\<rparr> (- 5) (- 5) 0 s1 of
           Inl e \<Rightarrow> None
         | Inr s2 \<Rightarrow> Some (map_option handle (interaction s1), simpleLines s2)))
   = Some (Some (Some 0),
           [\<lparr>line_x1 = 5, line_y1 = 5, line_x2 = 0, line_y2 = 0,
             line_stroke = [], line_strokeWidth = 3, line_dashed = False\<rparr>]) \<and>
   getLineBBox \<lparr>line_x1 = 10, line_y1 = 10, line_x2 = 0, line_y2 = 0,
                line_stroke = [], line_strokeWidth = 3, line_dashed = False\<rparr>
     = \<lparr>bbox_x0 = 0, bbox_y0 = 0, bbox_x1 = 10, bbox_y1 = 10\<rparr> \<and>
   hypot (0 - 0) (0 - 0) = 0 \<and> \<not> hypot (10 - 0) (10 - 0) \<le> 0"
  by (simp add: mountedState_def initialState_def onPointerDown_def onPointerMove_def getWorldPoint_def
      handleUnderPointer_def getSelectedBBox_def nthOpt_def getLineBBox_def pushHistory_def originalOf_def
      selectInteraction_def resizeSelected_def resizeLine_def jsAssign_def hypot_def Let_def)

subsection \<open>Undo after a gesture\<close>

text \<open>No pointer-move, pointer-up or pointer-leave handler writes the history.\<close>

lemma history_jsAssign:
  "map_sum id upd (jsAssign xs i v) = Inr s' \<Longrightarrow> (\<And>ys. history (upd ys) = h) \<Longrightarrow> history s' = h"
  by (auto simp: jsAssign_def split: if_splits)

lemma history_moveSelected:
  assumes "moveSelected kind idx orig dx dy s = Inr s'"
  shows "history s' = history s"
proof (cases kind)
  case KPen
  with assms show ?thesis by (simp add: moveSelected_def)
next
  case KRect
  with assms show ?thesis
    by (auto simp: moveSelected_def split: option.splits Shape.splits elim!: history_jsAssign)
next
  case KCircle
  with assms show ?thesis
    by (auto simp: moveSelected_def split: option.splits Shape.splits elim!: history_jsAssign)
next
  case KLine
  with assms show ?thesis
    by (auto simp: moveSelected_def split: option.splits Shape.splits elim!: history_jsAssign)
next
  case KArrow
  with assms show ?thesis
    by (auto simp: moveSelected_def split: option.splits Shape.splits elim!: history_jsAssign)
next
  case KTriangle
  with assms show ?thesis
    by (auto simp: moveSelected_def split: option.splits Shape.splits elim!: history_jsAssign)
qed

lemma history_resizeSelected:
  assumes "resizeSelected kind idx orig h st pos s = Inr s'"
  shows "history s' = history s"
proof (cases kind)
  case KPen
  with assms show ?thesis by (simp add: resizeSelected_def)
next
  case KRect
  with assms show ?thesis
    by (auto simp: resizeSelected_def Let_def split: option.splits Shape.splits elim!: history_jsAssign)
next
  case KCircle
  with assms show ?thesis
    by (auto simp: resizeSelected_def Let_def split: option.splits Shape.splits elim!: history_jsAssign)
next
  case KLine
  with assms show ?thesis
    by (auto simp: resizeSelected_def Let_def split: option.splits Shape.splits elim!: history_jsAssign)
next
  case KArrow
  with assms show ?thesis
    by (auto simp: resizeSelected_def Let_def split: option.splits Shape.splits elim!: history_jsAssign)
next
  case KTriangle
  with assms show ?thesis
    by (auto simp: resizeSelected_def Let_def split: option.splits Shape.splits elim!: history_jsAssign)
qed

lemma history_selectInteraction:
  assumes "selectInteraction cfg pos s = Some (Inr s')"
  shows "history s' = history s"
  using assms
  by (auto simp: selectInteraction_def split: option.splits if_splits bool.splits
      dest: history_moveSelected history_resizeSelected)

lemma history_applyEraserDeletion: "history (applyEraserDeletion path threshold s) = history s"
  by (simp add: applyEraserDeletion_def Let_def)

lemma history_foldl:
  "(\<And>st i. history (stp st i) = history st) \<Longrightarrow> history (foldl stp s0 js) = history s0"
  by (induction js arbitrary: s0) simp_all

lemma history_eraserMove: "history (eraserMove cfg pos s) = history s"
proof (cases "erasingPath s = []")
  case True
  then show ?thesis
    by (simp add: eraserMove_def)
next
  case False
  show ?thesis
    by (simp only: eraserMove_def Let_def False if_False)
      (rule history_foldl, simp add: history_applyEraserDeletion)
qed

lemma history_laserMove: "history (laserMove pos now s) = history s"
  by (simp add: laserMove_def Let_def)

lemma history_updateDrawing: "history (updateDrawing cfg pos s) = history s"
  by (simp add: updateDrawing_def Let_def split: option.split Draft.split)

lemma history_endDrawing: "history (endDrawing cfg s) = history s"
  by (simp add: endDrawing_def Let_def split: option.split Draft.split)

lemma history_startDrawing: "history (startDrawing cfg pos now s) = history s"
  by (simp add: startDrawing_def Let_def)

lemma history_onPointerUp: "history (onPointerUp cfg s) = history s"
  by (simp add: onPointerUp_def history_endDrawing)

lemma history_onPointerLeave: "history (onPointerLeave s) = history s"
  by (simp add: onPointerLeave_def)

lemma pan_case:
  "(case (b, p) of (True, Some pl) \<Rightarrow> A pl | _ \<Rightarrow> B)
   = (if b then (case p of Some pl \<Rightarrow> A pl | None \<Rightarrow> B) else B)"
  by (cases b; cases p; simp)

lemma onPointerMove_not_panning:
  assumes "\<not> (tool cfg = Pan \<and> isPanning s \<and> panLast s \<noteq> None)"
  shows "onPointerMove cfg clientX clientY now s =
        (let pos = getWorldPoint s clientX clientY;
             s1 = (if tool cfg = Eraser then s\<lparr>eraserCursor := Some pos\<rparr> else s)
         in case selectInteraction cfg pos s1 of
           Some result \<Rightarrow> result
         | None \<Rightarrow>
             if tool cfg = Laser \<and> drawing s1 then Inr (laserMove pos now s1)
             else if tool cfg = Eraser \<and> drawing s1 then Inr (eraserMove cfg pos s1)
             else if drawing s1 \<or> draft s1 \<noteq> None then Inr (updateDrawing cfg pos s1)
             else Inr s1)"
proof (cases "tool cfg = Pan \<and> isPanning s")
  case True
  with assms have n: "panLast s = None"
    by (cases "panLast s") auto
  have t: "(tool cfg = Pan \<and> isPanning s) = True"
    using True by simp
  show ?thesis
    unfolding onPointerMove_def pan_case t n by (simp only: if_True option.case)
next
  case False
  then have f: "(tool cfg = Pan \<and> isPanning s) = False"
    by simp
  show ?thesis
    unfolding onPointerMove_def pan_case f by (simp only: if_False)
qed

lemma onPointerMove_panning:
  assumes "tool cfg = Pan \<and> isPanning s" and "panLast s = Some pl"
  shows "onPointerMove cfg clientX clientY now s =
        Inr (s\<lparr>offset := (fst (offset s) + (clientX - fst pl), snd (offset s) + (clientY - snd pl)),
               panLast := Some (clientX, clientY)\<rparr>)"
  using assms unfolding onPointerMove_def pan_case by (simp add: Let_def)

lemma history_onPointerMove:
  assumes "onPointerMove cfg clientX clientY now s = Inr s'"
  shows "history s' = history s"
proof (cases "tool cfg = Pan \<and> isPanning s \<and> panLast s \<noteq> None")
  case True
  then obtain pl where "panLast s = Some pl"
    by auto
  with True assms show ?thesis
    by (auto simp: onPointerMove_panning)
next
  case False
  define pos where "pos = getWorldPoint s clientX clientY"
  define s1 where "s1 = (if tool cfg = Eraser then s\<lparr>eraserCursor := Some pos\<rparr> else s)"
  have h1: "history s1 = history s"
    by (simp add: s1_def)
  have m: "onPointerMove cfg clientX clientY now s =
        (case selectInteraction cfg pos s1 of
           Some result \<Rightarrow> result
         | None \<Rightarrow>
             if tool cfg = Laser \<and> drawing s1 then Inr (laserMove pos now s1)
             else if tool cfg = Eraser \<and> drawing s1 then Inr (eraserMove cfg pos s1)
             else if drawing s1 \<or> draft s1 \<noteq> None then Inr (updateDrawing cfg pos s1)
             else Inr s1)"
    unfolding onPointerMove_not_panning [OF False] pos_def s1_def Let_def ..
  show ?thesis
  proof (cases "selectInteraction cfg pos s1")
    case None
    then have "s' = laserMove pos now s1 \<or> s' = eraserMove cfg pos s1 \<or>
               s' = updateDrawing cfg pos s1 \<or> s' = s1"
      using assms unfolding m by (auto split: if_splits)
    with h1 show ?thesis
      by (auto simp: history_laserMove history_eraserMove history_updateDrawing)
  next
    case (Some result)
    with assms m have "selectInteraction cfg pos s1 = Some (Inr s')"
      by simp
    then have "history s' = history s1"
      by (rule history_selectInteraction)
    with h1 show ?thesis
      by simp
  qed
qed

lemma history_pointerMoves:
  "pointerMoves cfg ms s = Inr s' \<Longrightarrow> history s' = history s"
proof (induction ms arbitrary: s)
  case Nil
  then show ?case by simp
next
  case (Cons m ms)
  obtain x y t where m: "m = (x, y, t)"
    by (cases m)
  from Cons.prems obtain s1 where s1: "onPointerMove cfg x y t s = Inr s1"
    and rest: "pointerMoves cfg ms s1 = Inr s'"
    by (auto simp: m split: sum.splits)
  have "history s' = history s1"
    using rest by (rule Cons.IH)
  also have "\<dots> = history s"
    using s1 by (rule history_onPointerMove)
  finally show ?case .
qed

lemma history_onPointerDown:
  assumes "onPointerDown cfg clientX clientY now s = Inr s1"
    and "tool cfg \<in> {Pen, Eraser, Rect, Circle, Line, Arrow, Triangle} \<or>
         (tool cfg = Select \<and> interaction s1 \<noteq> None)"
  shows "history s1 = history (pushHistory s)"
proof (cases "tool cfg = Select")
  case True
  with assms show ?thesis
    by (auto simp: onPointerDown_def Let_def split: sum.splits option.splits if_splits prod.splits)
next
  case False
  with assms(2) have t: "tool cfg \<in> {Pen, Eraser, Rect, Circle, Line, Arrow, Triangle}"
    by simp
  then have "tool cfg \<noteq> Pan" and "tool cfg \<noteq> Laser" and "tool cfg \<noteq> Select"
    by auto
  with assms(1) show ?thesis
    by (auto simp: onPointerDown_def Let_def history_startDrawing split: if_splits)
qed

lemma sceneOf_onKey:
  assumes "(ctrlKey \<or> metaKey) \<and> (key = ''z'' \<or> key = ''Z'')" and "history s \<noteq> []"
  shows "sceneOf (onKey ctrlKey metaKey key s) = last (history s)"
  using assms by (simp add: onKey_def sceneOf_def Let_def)

text \<open>
  Claim C1. A gesture starts with a pointer-down that pushes the history: with the pen,
  the eraser or a shape tool, or with the select tool when the pointer-down starts a move
  or a resize. After any number of pointer moves, and then a pointer-up or the pointer
  leaving the canvas, undo gives back the six shape sequences held just before the
  pointer-down.
\<close>

theorem undo_exactness:
  assumes down: "onPointerDown cfg clientX clientY now s = Inr s1"
    and gesture: "tool cfg \<in> {Pen, Eraser, Rect, Circle, Line, Arrow, Triangle} \<or>
         (tool cfg = Select \<and> interaction s1 \<noteq> None)"
    and moves: "pointerMoves cfg ms s1 = Inr s2"
    and undo: "(ctrlKey \<or> metaKey) \<and> (key = ''z'' \<or> key = ''Z'')"
  shows "sceneOf (onKey ctrlKey metaKey key (onPointerUp cfg s2)) = sceneOf s \<and>
         sceneOf (onKey ctrlKey metaKey key (onPointerLeave s2)) = sceneOf s"
proof -
  have h2: "history s2 = history (pushHistory s)"
    using history_pointerMoves [OF moves] history_onPointerDown [OF down gesture] by simp
  have up: "history (onPointerUp cfg s2) = history (pushHistory s)"
    using h2 by (simp add: history_onPointerUp)
  have leave: "history (onPointerLeave s2) = history (pushHistory s)"
    using h2 by (simp add: history_onPointerLeave)
  have "sceneOf (onKey ctrlKey metaKey key (onPointerUp cfg s2)) = last (history (pushHistory s))"
    using sceneOf_onKey [OF undo, of "onPointerUp cfg s2"] up last_history_pushHistory [of s] by simp
  moreover have "sceneOf (onKey ctrlKey metaKey key (onPointerLeave s2)) = last (history (pushHistory s))"
    using sceneOf_onKey [OF undo, of "onPointerLeave s2"] leave last_history_pushHistory [of s] by simp
  ultimately show ?thesis
    using last_history_pushHistory [of s] by simp
qed

theorem undo_exactness_witness:
  "\<exists>s1 s2.
     onPointerDown \<lparr>tool = Rect, color = [], strokeWidth = 3, brushStyle = Round\<rparr> 10 10 0 mountedState = Inr s1 \<and>
     pointerMoves \<lparr>tool = Rect, color = [], strokeWidth = 3, brushStyle = Round\<rparr> [(30, 20, 1), (50, 40, 2)] s1
       = Inr s2 \<and>
     rects (onPointerUp \<lparr>tool = Rect, color = [], strokeWidth = 3, brushStyle = Round\<rparr> s2)
       = [\<lparr>rect_x = 10, rect_y = 10, rect_width = 40, rect_height = 30,
           rect_stroke = [], rect_strokeWidth = 3, rect_dashed = False\<rparr>] \<and>
     sceneOf (onKey True False ''z''
        (onPointerUp \<lparr>tool = Rect, color = [], strokeWidth = 3, brushStyle = Round\<rparr> s2))
       = sceneOf mountedState \<and>
     rects (onKey True False ''z''
        (onPointerUp \<lparr>tool = Rect, color = [], strokeWidth = 3, brushStyle = Round\<rparr> s2)) = []"
proof -
  let ?cfg = "\<lparr>tool = Rect, color = [], strokeWidth = 3, brushStyle = Round\<rparr>"
  let ?s1 = "mountedState\<lparr>history := [sceneOf mountedState], draft := Some (DraftRect 10 10 0 0)\<rparr>"
  let ?s2 = "mountedState\<lparr>history := [sceneOf mountedState], draft := Some (DraftRect 10 10 40 30)\<rparr>"
  have d: "onPointerDown ?cfg 10 10 0 mountedState = Inr ?s1"
    by (simp add: onPointerDown_def mountedState_def initialState_def getWorldPoint_def pushHistory_def
        startDrawing_def sceneOf_def MAX_HISTORY_def Let_def)
  have m1: "onPointerMove ?cfg 30 20 1 ?s1
            = Inr (mountedState\<lparr>history := [sceneOf mountedState], draft := Some (DraftRect 10 10 20 10)\<rparr>)"
    by (simp add: onPointerMove_def selectInteraction_def mountedState_def initialState_def
        getWorldPoint_def updateDrawing_def Let_def)
  have m2: "onPointerMove ?cfg 50 40 2
              (mountedState\<lparr>history := [sceneOf mountedState], draft := Some (DraftRect 10 10 20 10)\<rparr>)
            = Inr ?s2"
    by (simp add: onPointerMove_def selectInteraction_def mountedState_def initialState_def
        getWorldPoint_def updateDrawing_def Let_def)
  have m: "pointerMoves ?cfg [(30, 20, 1), (50, 40, 2)] ?s1 = Inr ?s2"
    by (simp add: m1 m2)
  have g: "tool ?cfg \<in> {Pen, Eraser, Rect, Circle, Line, Arrow, Triangle} \<or>
         (tool ?cfg = Select \<and> interaction ?s1 \<noteq> None)"
    by simp
  have u: "(True \<or> False) \<and> (''z'' = ''z'' \<or> ''z'' = ''Z'')"
    by simp
  have r: "rects (onPointerUp ?cfg ?s2)
       = [\<lparr>rect_x = 10, rect_y = 10, rect_width = 40, rect_height = 30,
           rect_stroke = [], rect_strokeWidth = 3, rect_dashed = False\<rparr>]"
    by (simp add: onPointerUp_def endDrawing_def mountedState_def initialState_def Let_def)
  have e: "sceneOf (onKey True False ''z'' (onPointerUp ?cfg ?s2)) = sceneOf mountedState"
    using undo_exactness [OF d g m u] by simp
  then have "rects (onKey True False ''z'' (onPointerUp ?cfg ?s2)) = []"
    by (simp add: sceneOf_def mountedState_def initialState_def)
  with d m r e show ?thesis
    by blast
qed

end
